theory Spec2Isabelle
  imports Main "HOL-Library.Word"
begin

unbundle bit_operations_syntax

section \<open>JavaScript strings\<close>

text \<open>
  A JavaScript string is a sequence of 16-bit code units; the bytes of a response body
  are 8-bit values. The operations below are the methods of \<^verbatim>\<open>String.prototype\<close> that
  \<^verbatim>\<open>parseSseBlock\<close> and \<^verbatim>\<open>send\<close> call, written from ECMA-262.
\<close>

type_synonym byte = "8 word"
type_synonym jsstring = "16 word list"

definition js :: "string \<Rightarrow> jsstring" where
  "js s = map (\<lambda>c. of_nat (of_char c)) s"

definition startsWith :: "jsstring \<Rightarrow> jsstring \<Rightarrow> bool" where
  "startsWith s p = (take (length p) s = p)"

text \<open>\<^verbatim>\<open>s.split(sep)\<close>: the separator is searched from the left, matches do not overlap,
  and the text after the last match is the last segment. An empty separator splits
  into code units. The \<open>[]\<close> branch of the inner case is never taken for a non-empty
  separator (the result has at least one segment).\<close>

fun js_split :: "jsstring \<Rightarrow> jsstring \<Rightarrow> jsstring list" where
  "js_split sep [] = (if sep = [] then [] else [[]])"
| "js_split sep (c # cs) =
     (if sep = [] then [c] # js_split sep cs
      else if startsWith (c # cs) sep then [] # js_split sep (drop (length sep - 1) cs)
      else (case js_split sep cs of [] \<Rightarrow> [[c]] | seg # segs \<Rightarrow> (c # seg) # segs))"

fun js_join :: "jsstring \<Rightarrow> jsstring list \<Rightarrow> jsstring" where
  "js_join sep [] = []"
| "js_join sep [x] = x"
| "js_join sep (x # y # ys) = x @ sep @ js_join sep (y # ys)"

text \<open>White space and line terminators of ECMA-262, the code units that
  \<^verbatim>\<open>trim\<close> strips.\<close>

definition is_js_space :: "16 word \<Rightarrow> bool" where
  "is_js_space c =
     ((0x09 \<le> c \<and> c \<le> 0x0D) \<or> c = 0x20 \<or> c = 0xA0 \<or> c = 0x1680
      \<or> (0x2000 \<le> c \<and> c \<le> 0x200A) \<or> c = 0x2028 \<or> c = 0x2029 \<or> c = 0x202F
      \<or> c = 0x205F \<or> c = 0x3000 \<or> c = 0xFEFF)"

definition trim :: "jsstring \<Rightarrow> jsstring" where
  "trim s = rev (dropWhile is_js_space (rev (dropWhile is_js_space s)))"

definition nl :: jsstring where
  "nl = [0x0A]"

definition delimiter :: jsstring where
  "delimiter = [0x0A, 0x0A]"

section \<open>TextDecoder\<close>

text \<open>
  \<^verbatim>\<open>new TextDecoder()\<close> is the UTF-8 decoder of the WHATWG Encoding Standard in
  replacement mode, with the byte order mark removed. A \<^verbatim>\<open>TextDecoder\<close> holds the
  decoder proper, with its five variables, and the flags \<^emph>\<open>BOM seen\<close> and
  \<^emph>\<open>do not flush\<close>.
\<close>

record utf8_decoder =
  code_point :: nat
  bytes_seen :: nat
  bytes_needed :: nat
  lower_boundary :: byte
  upper_boundary :: byte

record text_decoder =
  decoder :: utf8_decoder
  bom_seen :: bool
  do_not_flush :: bool

definition new_utf8_decoder :: utf8_decoder where
  "new_utf8_decoder =
     \<lparr>code_point = 0, bytes_seen = 0, bytes_needed = 0,
      lower_boundary = 0x80, upper_boundary = 0xBF\<rparr>"

definition new_TextDecoder :: text_decoder where
  "new_TextDecoder = \<lparr>decoder = new_utf8_decoder, bom_seen = False, do_not_flush = False\<rparr>"

text \<open>The handler for a byte when no bytes are needed. The result is the new state and
  the code points emitted (\<open>0xFFFD\<close> for an error).\<close>

definition utf8_lead :: "utf8_decoder \<Rightarrow> byte \<Rightarrow> utf8_decoder \<times> nat list" where
  "utf8_lead d b =
     (if b \<le> 0x7F then (d, [unat b])
      else if 0xC2 \<le> b \<and> b \<le> 0xDF then
        (d\<lparr>bytes_needed := 1, code_point := unat (b AND 0x1F)\<rparr>, [])
      else if 0xE0 \<le> b \<and> b \<le> 0xEF then
        (d\<lparr>lower_boundary := (if b = 0xE0 then 0xA0 else lower_boundary d),
           upper_boundary := (if b = 0xED then 0x9F else upper_boundary d),
           bytes_needed := 2, code_point := unat (b AND 0xF)\<rparr>, [])
      else if 0xF0 \<le> b \<and> b \<le> 0xF4 then
        (d\<lparr>lower_boundary := (if b = 0xF0 then 0x90 else lower_boundary d),
           upper_boundary := (if b = 0xF4 then 0x8F else upper_boundary d),
           bytes_needed := 3, code_point := unat (b AND 0x7)\<rparr>, [])
      else (d, [0xFFFD]))"

text \<open>The handler for any byte. A byte outside the boundaries while bytes are needed is
  an error, and the byte is handled again from the reset state.\<close>

definition utf8_byte :: "utf8_decoder \<Rightarrow> byte \<Rightarrow> utf8_decoder \<times> nat list" where
  "utf8_byte d b =
     (if bytes_needed d = 0 then utf8_lead d b
      else if b < lower_boundary d \<or> upper_boundary d < b then
        (case utf8_lead new_utf8_decoder b of (d', out) \<Rightarrow> (d', 0xFFFD # out))
      else
        (let d1 = d\<lparr>lower_boundary := 0x80, upper_boundary := 0xBF,
                    code_point := push_bit 6 (code_point d) OR unat (b AND 0x3F),
                    bytes_seen := bytes_seen d + 1\<rparr>
         in if bytes_seen d1 \<noteq> bytes_needed d1 then (d1, [])
            else (d1\<lparr>code_point := 0, bytes_needed := 0, bytes_seen := 0\<rparr>, [code_point d1])))"

fun utf8_bytes :: "utf8_decoder \<Rightarrow> byte list \<Rightarrow> utf8_decoder \<times> nat list" where
  "utf8_bytes d [] = (d, [])"
| "utf8_bytes d (b # bs) =
     (case utf8_byte d b of (d1, out1) \<Rightarrow>
        (case utf8_bytes d1 bs of (d2, out2) \<Rightarrow> (d2, out1 @ out2)))"

text \<open>End of queue: bytes still needed are an error.\<close>

definition utf8_end :: "utf8_decoder \<Rightarrow> utf8_decoder \<times> nat list" where
  "utf8_end d =
     (if bytes_needed d \<noteq> 0 then (d\<lparr>bytes_needed := 0\<rparr>, [0xFFFD]) else (d, []))"

definition utf16 :: "nat \<Rightarrow> jsstring" where
  "utf16 cp =
     (if cp < 0x10000 then [of_nat cp]
      else [of_nat (0xD800 + (cp - 0x10000) div 0x400),
            of_nat (0xDC00 + (cp - 0x10000) mod 0x400)])"

text \<open>Serialising the decoded code points: the first one is dropped when it is the byte
  order mark.\<close>

fun serialize :: "bool \<Rightarrow> nat list \<Rightarrow> bool \<times> jsstring" where
  "serialize seen [] = (seen, [])"
| "serialize seen (item # items) =
     (if \<not> seen \<and> item = 0xFEFF then serialize True items
      else (case serialize True items of (seen', out) \<Rightarrow> (seen', utf16 item @ out)))"

text \<open>\<^verbatim>\<open>decoder.decode(input, { stream })\<close>: the new state and the string returned. A call
  that follows a flushing call starts from a new decoder.\<close>

definition decode :: "text_decoder \<Rightarrow> byte list \<Rightarrow> bool \<Rightarrow> text_decoder \<times> jsstring" where
  "decode td input stream =
     (let td0 = (if do_not_flush td then td else new_TextDecoder)
      in case utf8_bytes (decoder td0) input of (d1, out1) \<Rightarrow>
         (case (if stream then (d1, []) else utf8_end d1) of (d2, out2) \<Rightarrow>
            (case serialize (bom_seen td0) (out1 @ out2) of (seen, text) \<Rightarrow>
               (\<lparr>decoder = d2, bom_seen = seen, do_not_flush = stream\<rparr>, text))))"

section \<open>Numbers\<close>

text \<open>
  A JavaScript number is an IEEE 754 double: \<open>Finite neg m e\<close> is the value
  \<open>\<plusminus> m * 2 ^ e\<close>, with \<open>m < 2 ^ 53\<close> and \<open>- 1074 \<le> e \<le> 971\<close> as
  \<^verbatim>\<open>round_to_double\<close> gives them, and \<open>Infinite neg\<close> is \<open>\<plusminus>\<infinity>\<close>. No arithmetic is done
  on numbers: a number is read from its literal by \<^verbatim>\<open>JSON.parse\<close>, tested for zero and
  written back. All of it is exact integer arithmetic.
\<close>

datatype js_number = Finite bool nat int | Infinite bool

definition is_digit :: "16 word \<Rightarrow> bool" where
  "is_digit c = (0x30 \<le> c \<and> c \<le> 0x39)"

definition digits_value :: "jsstring \<Rightarrow> nat" where
  "digits_value ds = foldl (\<lambda>n c. n * 10 + (unat c - 0x30)) 0 ds"

text \<open>A number literal of the JSON grammar as sign, digits and power of ten: the value
  is \<open>\<plusminus> digits * 10 ^ exp\<close>.\<close>

definition literal_decimal :: "jsstring \<Rightarrow> bool \<times> nat \<times> int" where
  "literal_decimal lit =
     (let neg = startsWith lit [0x2D];
          s1 = (if neg then drop 1 lit else lit);
          int_part = takeWhile is_digit s1;
          s2 = drop (length int_part) s1;
          frac = (if startsWith s2 [0x2E] then takeWhile is_digit (drop 1 s2) else []);
          s3 = (if startsWith s2 [0x2E] then drop (1 + length frac) s2 else s2);
          s4 = drop 1 s3;
          exp = (if startsWith s4 [0x2D] then - int (digits_value (drop 1 s4))
                 else if startsWith s4 [0x2B] then int (digits_value (drop 1 s4))
                 else int (digits_value s4))
      in (neg, digits_value (int_part @ frac), exp - int (length frac)))"

fun bit_length :: "nat \<Rightarrow> nat" where
  "bit_length n = (if n = 0 then 0 else Suc (bit_length (n div 2)))"

fun dec_length :: "nat \<Rightarrow> nat" where
  "dec_length n = (if n = 0 then 0 else Suc (dec_length (n div 10)))"

text \<open>The fraction \<open>n / d\<close> multiplied by \<open>b ^ (- p)\<close>, as a numerator and a denominator.\<close>

definition scale_num :: "nat \<Rightarrow> nat \<Rightarrow> int \<Rightarrow> nat" where
  "scale_num n b p = (if p \<le> 0 then n * b ^ nat (- p) else n)"

definition scale_den :: "nat \<Rightarrow> nat \<Rightarrow> int \<Rightarrow> nat" where
  "scale_den d b p = (if p \<le> 0 then d else d * b ^ nat p)"

text \<open>The integer part of the logarithm of \<open>n / d\<close> to the base \<open>b\<close>; \<open>len\<close> counts the
  digits of a number in that base.\<close>

definition floor_log :: "nat \<Rightarrow> (nat \<Rightarrow> nat) \<Rightarrow> nat \<Rightarrow> nat \<Rightarrow> int" where
  "floor_log b len n d =
     (let a = int (len n) - int (len d)
      in if scale_den d b a \<le> scale_num n b a then a else a - 1)"

definition round_half_even :: "nat \<Rightarrow> nat \<Rightarrow> nat" where
  "round_half_even n d =
     (let q = n div d; r = n mod d
      in if d < 2 * r \<or> (2 * r = d \<and> odd q) then q + 1 else q)"

text \<open>The double nearest to the positive fraction \<open>n / d\<close>, ties to even: its significand
  and exponent, \<open>(0, 0)\<close> for an underflow to zero, \<open>None\<close> for an overflow to infinity.\<close>

definition round_to_double :: "nat \<Rightarrow> nat \<Rightarrow> (nat \<times> int) option" where
  "round_to_double n d =
     (let q = max (floor_log 2 bit_length n d - 52) (- 1074);
          m = round_half_even (scale_num n 2 q) (scale_den d 2 q);
          m' = (if m = 2 ^ 53 then 2 ^ 52 else m);
          q' = (if m = 2 ^ 53 then q + 1 else q)
      in if m' = 0 then Some (0, 0)
         else if 971 < q' then None
         else Some (m', q'))"

text \<open>The number that a literal denotes.\<close>

definition to_number :: "jsstring \<Rightarrow> js_number" where
  "to_number lit =
     (case literal_decimal lit of
        (neg, digits, exp) \<Rightarrow>
          if digits = 0 then Finite neg 0 0
          else (case round_to_double (scale_den digits 10 exp) (scale_num 1 10 exp) of
                  None \<Rightarrow> Infinite neg
                | Some (m, q) \<Rightarrow> Finite neg m q))"

text \<open>\<^verbatim>\<open>Number::toString\<close>: the shortest decimal that reads back as the number, and
  among those of that length the nearest. \<open>candidates m q n0 k\<close> are the integers \<open>s\<close> of
  \<open>k\<close> digits next to \<open>m * 2 ^ q / 10 ^ (n0 - k)\<close> for which \<open>s * 10 ^ (n0 - k)\<close>
  rounds to the number, the nearer first. Seventeen digits always suffice, so the
  defaults in \<open>shortest\<close> are never used.\<close>

definition candidates :: "nat \<Rightarrow> int \<Rightarrow> int \<Rightarrow> nat \<Rightarrow> nat list" where
  "candidates m q n0 k =
     (let n = scale_den m 2 q; d = scale_num 1 2 q;
          p = n0 - int k;
          lo = scale_num n 10 p div scale_den d 10 p;
          hi = lo + 1;
          lo_nearer = (2 * scale_num n 10 p < (2 * lo + 1) * scale_den d 10 p);
          tie = (2 * scale_num n 10 p = (2 * lo + 1) * scale_den d 10 p);
          ordered = (if lo_nearer \<or> (tie \<and> even lo) then [lo, hi] else [hi, lo])
      in filter (\<lambda>s. round_to_double (scale_den s 10 p) (scale_num 1 10 p) = Some (m, q)) ordered)"

text \<open>The digits \<open>s\<close> and the position \<open>n\<close> of the decimal point: the number is
  \<open>s * 10 ^ (n - k)\<close> for the \<open>k\<close> digits of \<open>s\<close>.\<close>

definition shortest :: "nat \<Rightarrow> int \<Rightarrow> nat \<times> int" where
  "shortest m q =
     (let n0 = floor_log 10 dec_length (scale_den m 2 q) (scale_num 1 2 q) + 1;
          k = (case find (\<lambda>k. candidates m q n0 k \<noteq> []) [1..<18] of Some k \<Rightarrow> k | None \<Rightarrow> 17);
          s = (case candidates m q n0 k of s # _ \<Rightarrow> s | [] \<Rightarrow> 0)
      in if s = 10 ^ k then (10 ^ (k - 1), n0 + 1) else (s, n0))"

fun dec_digits_acc :: "nat \<Rightarrow> jsstring \<Rightarrow> jsstring" where
  "dec_digits_acc n acc =
     (if n < 10 then of_nat (0x30 + n) # acc
      else dec_digits_acc (n div 10) (of_nat (0x30 + n mod 10) # acc))"

definition dec_digits :: "nat \<Rightarrow> jsstring" where
  "dec_digits n = dec_digits_acc n []"

fun strip_zeros :: "nat \<Rightarrow> nat" where
  "strip_zeros s = (if s \<noteq> 0 \<and> s mod 10 = 0 then strip_zeros (s div 10) else s)"

definition number_to_string :: "js_number \<Rightarrow> jsstring" where
  "number_to_string x =
     (case x of
        Infinite neg \<Rightarrow> (if neg then js ''-Infinity'' else js ''Infinity'')
      | Finite neg m q \<Rightarrow>
          if m = 0 then js ''0''
          else
            (case shortest m q of
               (s0, n) \<Rightarrow>
                 let ds = dec_digits (strip_zeros s0); k = int (length ds);
                     txt =
                       (if k \<le> n \<and> n \<le> 21 then ds @ replicate (nat (n - k)) 0x30
                        else if 0 < n \<and> n \<le> 21 then take (nat n) ds @ [0x2E] @ drop (nat n) ds
                        else if - 6 < n \<and> n \<le> 0 then js ''0.'' @ replicate (nat (- n)) 0x30 @ ds
                        else take 1 ds @ (if k = 1 then [] else [0x2E] @ drop 1 ds) @ [0x65]
                             @ (if 0 \<le> n - 1 then [0x2B] else [0x2D])
                             @ dec_digits (nat \<bar>n - 1\<bar>))
                 in (if neg then [0x2D] else []) @ txt))"

section \<open>JSON values\<close>

text \<open>
  The values that \<^verbatim>\<open>JSON.parse\<close> returns. An object is the list of its own properties
  in creation order.
\<close>

datatype jsvalue =
    JNull
  | JBool bool
  | JNum js_number
  | JStr jsstring
  | JArr "jsvalue list"
  | JObj "(jsstring \<times> jsvalue) list"

text \<open>\<^verbatim>\<open>v.p\<close> for a value other than \<^verbatim>\<open>null\<close>; \<open>None\<close> is \<^verbatim>\<open>undefined\<close>. The source
  reads the properties \<^verbatim>\<open>text\<close>, \<^verbatim>\<open>tool\<close>, \<^verbatim>\<open>tool_call\<close>, \<^verbatim>\<open>name\<close>, \<^verbatim>\<open>message\<close>,
  \<^verbatim>\<open>detail\<close>, \<^verbatim>\<open>error\<close> and \<^verbatim>\<open>memories\<close>; none of them is inherited from a prototype, so
  only an object's own property can give a value.\<close>

fun get_prop :: "jsvalue \<Rightarrow> jsstring \<Rightarrow> jsvalue option" where
  "get_prop (JObj props) p = map_of props p"
| "get_prop v p = None"

text \<open>\<^verbatim>\<open>v?.p\<close>, also for an operand that is already \<^verbatim>\<open>undefined\<close>.\<close>

fun opt_chain :: "jsvalue option \<Rightarrow> jsstring \<Rightarrow> jsvalue option" where
  "opt_chain None p = None"
| "opt_chain (Some JNull) p = None"
| "opt_chain (Some v) p = get_prop v p"

text \<open>Truthiness: \<^verbatim>\<open>null\<close>, \<^verbatim>\<open>false\<close>, the zeros and the empty string are falsy.\<close>

fun truthy :: "jsvalue \<Rightarrow> bool" where
  "truthy JNull = False"
| "truthy (JBool b) = b"
| "truthy (JNum (Finite neg m e)) = (m \<noteq> 0)"
| "truthy (JNum (Infinite neg)) = True"
| "truthy (JStr s) = (s \<noteq> [])"
| "truthy (JArr vs) = True"
| "truthy (JObj props) = True"

text \<open>\<^verbatim>\<open>a || b\<close> where \<open>a\<close> may be \<^verbatim>\<open>undefined\<close>.\<close>

fun or_else :: "jsvalue option \<Rightarrow> jsvalue option \<Rightarrow> jsvalue option" where
  "or_else None b = b"
| "or_else (Some v) b = (if truthy v then Some v else b)"

text \<open>\<^verbatim>\<open>a || lit\<close> with a literal on the right.\<close>

fun or_value :: "jsvalue option \<Rightarrow> jsvalue \<Rightarrow> jsvalue" where
  "or_value None lit = lit"
| "or_value (Some v) lit = (if truthy v then v else lit)"

text \<open>What can be thrown: every value thrown in \<^verbatim>\<open>send\<close> is an error object, and the
  handler reads only its message.\<close>

datatype js_error = Error jsstring | TypeError jsstring | SyntaxError jsstring

fun err_message :: "js_error \<Rightarrow> jsstring" where
  "err_message (Error m) = m"
| "err_message (TypeError m) = m"
| "err_message (SyntaxError m) = m"

text \<open>The messages of the errors that the JavaScript engine itself raises differ between
  engines; they are parameters: the message of the \<^verbatim>\<open>SyntaxError\<close> of \<^verbatim>\<open>JSON.parse\<close> on a
  text, of the \<^verbatim>\<open>TypeError\<close> for reading a property of \<^verbatim>\<open>null\<close>, and of the
  \<^verbatim>\<open>TypeError\<close> for an object that cannot be converted to a primitive value.\<close>

record engine =
  syntax_error_message :: "jsstring \<Rightarrow> jsstring"
  null_property_message :: "jsstring \<Rightarrow> jsstring"
  to_primitive_message :: jsstring

text \<open>The first error of a list of results, or all the values.\<close>

fun collect :: "(js_error + 'a) list \<Rightarrow> js_error + 'a list" where
  "collect [] = Inr []"
| "collect (Inl e # rs) = Inl e"
| "collect (Inr x # rs) = (case collect rs of Inl e \<Rightarrow> Inl e | Inr xs \<Rightarrow> Inr (x # xs))"

text \<open>\<^verbatim>\<open>String(v)\<close>, as a template literal and the \<^verbatim>\<open>Error\<close> constructor apply it. An
  array is joined, with nothing for a \<^verbatim>\<open>null\<close> element. An object is converted by
  \<^verbatim>\<open>Object.prototype.toString\<close>, unless it has an own property \<^verbatim>\<open>toString\<close>: a parsed
  value is never callable, and then the conversion throws a \<^verbatim>\<open>TypeError\<close>.\<close>

fun to_string :: "engine \<Rightarrow> jsvalue \<Rightarrow> js_error + jsstring" where
  "to_string eng JNull = Inr (js ''null'')"
| "to_string eng (JBool b) = Inr (if b then js ''true'' else js ''false'')"
| "to_string eng (JNum x) = Inr (number_to_string x)"
| "to_string eng (JStr s) = Inr s"
| "to_string eng (JArr vs) =
     (case collect (map (\<lambda>v. if v = JNull then Inr [] else to_string eng v) vs) of
        Inl e \<Rightarrow> Inl e
      | Inr ss \<Rightarrow> Inr (js_join (js '','') ss))"
| "to_string eng (JObj props) =
     (if map_of props (js ''toString'') = None then Inr (js ''[object Object]'')
      else Inl (TypeError (to_primitive_message eng)))"

subsection \<open>JSON.parse\<close>

datatype token =
    TLBrace | TRBrace | TLBrack | TRBrack | TColon | TComma
  | TString jsstring | TNumber jsstring | TTrue | TFalse | TNull

definition is_json_space :: "16 word \<Rightarrow> bool" where
  "is_json_space c = (c = 0x09 \<or> c = 0x0A \<or> c = 0x0D \<or> c = 0x20)"

definition hex_digit :: "16 word \<Rightarrow> nat option" where
  "hex_digit c =
     (if 0x30 \<le> c \<and> c \<le> 0x39 then Some (unat c - 0x30)
      else if 0x61 \<le> c \<and> c \<le> 0x66 then Some (unat c - 0x57)
      else if 0x41 \<le> c \<and> c \<le> 0x46 then Some (unat c - 0x37)
      else None)"

definition simple_escape :: "16 word \<Rightarrow> 16 word option" where
  "simple_escape e =
     (if e = 0x22 \<or> e = 0x5C \<or> e = 0x2F then Some e
      else if e = 0x62 then Some 0x08
      else if e = 0x66 then Some 0x0C
      else if e = 0x6E then Some 0x0A
      else if e = 0x72 then Some 0x0D
      else if e = 0x74 then Some 0x09
      else None)"

text \<open>The escape sequence after a backslash: the code unit it denotes and the text
  after it.\<close>

definition scan_escape :: "jsstring \<Rightarrow> (16 word \<times> jsstring) option" where
  "scan_escape s =
     (case s of
        [] \<Rightarrow> None
      | e # es \<Rightarrow>
          if e = 0x75 then
            (case es of
               h1 # h2 # h3 # h4 # rest \<Rightarrow>
                 (case (hex_digit h1, hex_digit h2, hex_digit h3, hex_digit h4) of
                    (Some a, Some b, Some c, Some d) \<Rightarrow>
                      Some (of_nat (((a * 16 + b) * 16 + c) * 16 + d), rest)
                  | _ \<Rightarrow> None)
             | _ \<Rightarrow> None)
          else map_option (\<lambda>x. (x, es)) (simple_escape e))"

text \<open>The characters of a string literal after its opening quote: the string's value and
  the text after the closing quote.\<close>

function scan_string :: "jsstring \<Rightarrow> jsstring \<Rightarrow> (jsstring \<times> jsstring) option" where
  "scan_string acc [] = None"
| "scan_string acc (c # cs) =
     (if c = 0x22 then Some (acc, cs)
      else if c = 0x5C then
        (case scan_escape cs of
           None \<Rightarrow> None
         | Some (x, rest) \<Rightarrow> scan_string (acc @ [x]) rest)
      else if c < 0x20 then None
      else scan_string (acc @ [c]) cs)"
  by pat_completeness auto
termination
  by (relation "measure (\<lambda>(acc, cs). length cs)")
     (auto simp: scan_escape_def split: list.splits if_splits option.splits)

text \<open>A number literal at the head of the text: an optional minus, an integer part
  without a leading zero, an optional fraction and an optional exponent.\<close>

definition number_literal :: "jsstring \<Rightarrow> jsstring" where
  "number_literal s =
     (let sign = (if startsWith s [0x2D] then [0x2D] else []);
          s1 = drop (length sign) s;
          int_part = (if startsWith s1 [0x30] then [0x30] else takeWhile is_digit s1);
          s2 = drop (length int_part) s1;
          frac_digits = takeWhile is_digit (drop 1 s2);
          frac = (if startsWith s2 [0x2E] \<and> frac_digits \<noteq> [] then 0x2E # frac_digits else []);
          s3 = drop (length frac) s2;
          exp_sign = (if startsWith (drop 1 s3) [0x2B] \<or> startsWith (drop 1 s3) [0x2D]
                      then take 1 (drop 1 s3) else []);
          exp_digits = takeWhile is_digit (drop (1 + length exp_sign) s3);
          exp = (if (startsWith s3 [0x65] \<or> startsWith s3 [0x45]) \<and> exp_digits \<noteq> []
                 then take 1 s3 @ exp_sign @ exp_digits else [])
      in if int_part = [] then [] else sign @ int_part @ frac @ exp)"

definition scan_number :: "jsstring \<Rightarrow> (jsstring \<times> jsstring) option" where
  "scan_number s =
     (let lit = number_literal s
      in if lit = [] then None else Some (lit, drop (length lit) s))"

text \<open>The tokens of a text; \<open>None\<close> when some character starts no token.\<close>

function lex :: "jsstring \<Rightarrow> token list option" where
  "lex [] = Some []"
| "lex (c # cs) =
     (if is_json_space c then lex cs
      else if c = 0x7B then map_option ((#) TLBrace) (lex cs)
      else if c = 0x7D then map_option ((#) TRBrace) (lex cs)
      else if c = 0x5B then map_option ((#) TLBrack) (lex cs)
      else if c = 0x5D then map_option ((#) TRBrack) (lex cs)
      else if c = 0x3A then map_option ((#) TColon) (lex cs)
      else if c = 0x2C then map_option ((#) TComma) (lex cs)
      else if c = 0x22 then
        (case scan_string [] cs of
           None \<Rightarrow> None
         | Some (s, rest) \<Rightarrow> map_option ((#) (TString s)) (lex rest))
      else if startsWith (c # cs) (js ''true'') then map_option ((#) TTrue) (lex (drop 3 cs))
      else if startsWith (c # cs) (js ''false'') then map_option ((#) TFalse) (lex (drop 4 cs))
      else if startsWith (c # cs) (js ''null'') then map_option ((#) TNull) (lex (drop 3 cs))
      else (case scan_number (c # cs) of
              None \<Rightarrow> None
            | Some (lit, rest) \<Rightarrow> map_option ((#) (TNumber lit)) (lex rest)))"
  by pat_completeness auto
termination
proof -
  have esc: "scan_escape cs = Some (x, rest) \<Longrightarrow> length rest < length cs"
    for cs x rest
    by (auto simp: scan_escape_def split: list.splits if_splits option.splits)
  have str: "scan_string acc cs = Some (s, rest) \<Longrightarrow> length rest < Suc (length cs)"
    for acc cs s rest
  proof (induction acc cs rule: scan_string.induct)
    case (1 acc)
    then show ?case by simp
  next
    case (2 acc c cs)
    show ?case
    proof (cases "c = 0x22")
      case True
      with "2.prems" show ?thesis by simp
    next
      case quote: False
      show ?thesis
      proof (cases "c = 0x5C")
        case True
        with quote "2.prems" obtain x r where
          e: "scan_escape cs = Some (x, r)" and s: "scan_string (acc @ [x]) r = Some (s, rest)"
          by (auto split: option.splits)
        from "2.IH"(1) [OF quote True e refl s] esc [OF e] show ?thesis by simp
      next
        case False
        with quote "2.prems" have lt: "\<not> c < 0x20" and s: "scan_string (acc @ [c]) cs = Some (s, rest)"
          by (auto split: if_splits)
        from "2.IH"(2) [OF quote False lt s] show ?thesis by simp
      qed
    qed
  qed
  have num: "scan_number (c # cs) = Some (lit, rest) \<Longrightarrow> length rest < Suc (length cs)"
    for c cs lit rest
    by (cases lit) (auto simp: scan_number_def Let_def split: if_splits)
  show ?thesis
    by (relation "measure length") (auto dest: str num)
qed

text \<open>The grammar, as an automaton over the tokens with a stack of the arrays and objects
  that are open. Each token is one step.\<close>

datatype frame =
    InArray "jsvalue list"
  | InObject "(jsstring \<times> jsvalue) list" jsstring

datatype pstate =
    WantValue | WantValueOrClose | WantKeyOrClose | WantKey
  | WantColon jsstring | Have jsvalue

text \<open>Defining a property: a key that exists keeps its place and takes the new value.\<close>

fun obj_put :: "(jsstring \<times> 'v) list \<Rightarrow> jsstring \<Rightarrow> 'v \<Rightarrow> (jsstring \<times> 'v) list" where
  "obj_put [] k v = [(k, v)]"
| "obj_put ((k', v') # ps) k v =
     (if k' = k then (k, v) # ps else (k', v') # obj_put ps k v)"

fun scalar :: "token \<Rightarrow> jsvalue option" where
  "scalar (TString s) = Some (JStr s)"
| "scalar (TNumber lit) = Some (JNum (to_number lit))"
| "scalar TTrue = Some (JBool True)"
| "scalar TFalse = Some (JBool False)"
| "scalar TNull = Some JNull"
| "scalar t = None"

definition open_value :: "frame list \<Rightarrow> token \<Rightarrow> (pstate \<times> frame list) option" where
  "open_value stack t =
     (if t = TLBrack then Some (WantValueOrClose, InArray [] # stack)
      else if t = TLBrace then Some (WantKeyOrClose, InObject [] [] # stack)
      else map_option (\<lambda>v. (Have v, stack)) (scalar t))"

fun step :: "pstate \<Rightarrow> frame list \<Rightarrow> token \<Rightarrow> (pstate \<times> frame list) option" where
  "step WantValue stack t = open_value stack t"
| "step WantValueOrClose stack t =
     (if t = TRBrack then
        (case stack of InArray vs # rest \<Rightarrow> Some (Have (JArr vs), rest) | _ \<Rightarrow> None)
      else open_value stack t)"
| "step WantKeyOrClose stack t =
     (case t of
        TString k \<Rightarrow> Some (WantColon k, stack)
      | TRBrace \<Rightarrow>
          (case stack of InObject ps k # rest \<Rightarrow> Some (Have (JObj ps), rest) | _ \<Rightarrow> None)
      | _ \<Rightarrow> None)"
| "step WantKey stack t =
     (case t of TString k \<Rightarrow> Some (WantColon k, stack) | _ \<Rightarrow> None)"
| "step (WantColon k) stack t =
     (if t = TColon then
        (case stack of InObject ps k' # rest \<Rightarrow> Some (WantValue, InObject ps k # rest)
         | _ \<Rightarrow> None)
      else None)"
| "step (Have v) stack t =
     (case stack of
        [] \<Rightarrow> None
      | InArray vs # rest \<Rightarrow>
          if t = TComma then Some (WantValue, InArray (vs @ [v]) # rest)
          else if t = TRBrack then Some (Have (JArr (vs @ [v])), rest)
          else None
      | InObject ps k # rest \<Rightarrow>
          if t = TComma then Some (WantKey, InObject (obj_put ps k v) k # rest)
          else if t = TRBrace then Some (Have (JObj (obj_put ps k v)), rest)
          else None)"

fun run :: "pstate \<Rightarrow> frame list \<Rightarrow> token list \<Rightarrow> jsvalue option" where
  "run st stack [] = (case (st, stack) of (Have v, []) \<Rightarrow> Some v | _ \<Rightarrow> None)"
| "run st stack (t # ts) =
     (case step st stack t of
        None \<Rightarrow> None
      | Some (st', stack') \<Rightarrow> run st' stack' ts)"

text \<open>\<^verbatim>\<open>JSON.parse(text)\<close>; \<open>None\<close> is the \<^verbatim>\<open>SyntaxError\<close>.\<close>

definition JSON_parse :: "jsstring \<Rightarrow> jsvalue option" where
  "JSON_parse text = (case lex text of None \<Rightarrow> None | Some ts \<Rightarrow> run WantValue [] ts)"

subsection \<open>JSON.stringify\<close>

definition hex_char :: "nat \<Rightarrow> 16 word" where
  "hex_char n = (if n < 10 then of_nat (0x30 + n) else of_nat (0x57 + n))"

definition unicode_escape :: "16 word \<Rightarrow> jsstring" where
  "unicode_escape c =
     [0x5C, 0x75, hex_char (unat c div 4096), hex_char (unat c div 256 mod 16),
      hex_char (unat c div 16 mod 16), hex_char (unat c mod 16)]"

definition quote_unit :: "16 word \<Rightarrow> jsstring" where
  "quote_unit c =
     (if c = 0x08 then [0x5C, 0x62]
      else if c = 0x09 then [0x5C, 0x74]
      else if c = 0x0A then [0x5C, 0x6E]
      else if c = 0x0C then [0x5C, 0x66]
      else if c = 0x0D then [0x5C, 0x72]
      else if c = 0x22 then [0x5C, 0x22]
      else if c = 0x5C then [0x5C, 0x5C]
      else if c < 0x20 then unicode_escape c
      else [c])"

definition is_lead :: "16 word \<Rightarrow> bool" where
  "is_lead c = (0xD800 \<le> c \<and> c \<le> 0xDBFF)"

definition is_trail :: "16 word \<Rightarrow> bool" where
  "is_trail c = (0xDC00 \<le> c \<and> c \<le> 0xDFFF)"

text \<open>A surrogate pair is kept; a surrogate alone is written as an escape.\<close>

fun quote_units :: "jsstring \<Rightarrow> jsstring" where
  "quote_units [] = []"
| "quote_units [c] = (if is_lead c \<or> is_trail c then unicode_escape c else quote_unit c)"
| "quote_units (c # d # ds) =
     (if is_lead c \<and> is_trail d then c # d # quote_units ds
      else if is_lead c \<or> is_trail c then unicode_escape c @ quote_units (d # ds)
      else quote_unit c @ quote_units (d # ds))"

definition quote :: "jsstring \<Rightarrow> jsstring" where
  "quote s = 0x22 # quote_units s @ [0x22]"

text \<open>The order in which an object's own properties are enumerated: array indices in
  ascending order, then the other keys in creation order.\<close>

definition is_array_index :: "jsstring \<Rightarrow> bool" where
  "is_array_index k =
     (k = [0x30] \<or>
      (k \<noteq> [] \<and> list_all is_digit k \<and> hd k \<noteq> 0x30 \<and> digits_value k \<le> 4294967294))"

definition own_props :: "(jsstring \<times> 'v) list \<Rightarrow> (jsstring \<times> 'v) list" where
  "own_props ps =
     sort_key (\<lambda>p. digits_value (fst p)) (filter (\<lambda>p. is_array_index (fst p)) ps)
     @ filter (\<lambda>p. \<not> is_array_index (fst p)) ps"

fun stringify :: "jsvalue \<Rightarrow> jsstring" where
  "stringify JNull = js ''null''"
| "stringify (JBool b) = (if b then js ''true'' else js ''false'')"
| "stringify (JNum (Finite neg m e)) = number_to_string (Finite neg m e)"
| "stringify (JNum (Infinite neg)) = js ''null''"
| "stringify (JStr s) = quote s"
| "stringify (JArr vs) = js ''['' @ js_join (js '','') (map stringify vs) @ js '']''"
| "stringify (JObj props) =
     js ''{''
     @ js_join (js '','')
         (map (\<lambda>p. quote (fst p) @ js '':'' @ snd p)
            (own_props (map (\<lambda>p. (fst p, stringify (snd p))) props)))
     @ js ''}''"

section \<open>The frame parser\<close>

record sse_event =
  event :: jsstring
  payload :: jsvalue

text \<open>The body of the loop over the lines of a block: the event name and the data lines
  read so far.\<close>

definition parse_line :: "jsstring \<times> jsstring list \<Rightarrow> jsstring \<Rightarrow> jsstring \<times> jsstring list" where
  "parse_line acc line =
     (let event' = (if startsWith line (js ''event:'') then trim (drop 6 line) else fst acc);
          data' = (if startsWith line (js ''data:'') then snd acc @ [trim (drop 5 line)]
                   else snd acc)
      in (event', data'))"

text \<open>The event name and the data lines after the loop, and the joined data lines
  (\<^verbatim>\<open>raw\<close>).\<close>

definition block_fields :: "jsstring \<Rightarrow> jsstring \<times> jsstring list" where
  "block_fields block = foldl parse_line (js ''message'', []) (js_split nl block)"

definition raw_payload :: "jsstring \<Rightarrow> jsstring" where
  "raw_payload block = js_join nl (snd (block_fields block))"

text \<open>\<^verbatim>\<open>parseSseBlock(block)\<close>; \<open>None\<close> is \<^verbatim>\<open>null\<close>. The \<^verbatim>\<open>SyntaxError\<close> of
  \<^verbatim>\<open>JSON.parse\<close> is caught inside.\<close>

definition parseSseBlock :: "jsstring \<Rightarrow> sse_event option" where
  "parseSseBlock block =
     (if block = [] then None
      else
        let raw = raw_payload block;
            payload0 = JObj [];
            payload1 = (if raw \<noteq> [] then
                          (case JSON_parse raw of
                             Some v \<Rightarrow> v
                           | None \<Rightarrow> JObj [(js ''text'', JStr raw)])
                        else payload0)
        in Some \<lparr>event = fst (block_fields block), payload = payload1\<rparr>)"

section \<open>Conversation state and the dispatcher\<close>

datatype role = User | Assistant

text \<open>A message; a user message is created without an \<^verbatim>\<open>id\<close>.\<close>

record message =
  msg_id :: "jsstring option"
  role :: role
  content :: jsstring

text \<open>The text that the updater for a \<^verbatim>\<open>tool_call\<close> event and the updater for a
  \<^verbatim>\<open>token\<close> event append to the content, from the payload of the event; the conversion
  of the tool name or of the token to a string may throw.\<close>

definition tool_annotation :: "engine \<Rightarrow> jsvalue \<Rightarrow> js_error + jsstring" where
  "tool_annotation eng pl =
     (let toolName =
            or_value
              (or_else (opt_chain (opt_chain (Some pl) (js ''tool_call'')) (js ''name''))
                       (opt_chain (Some pl) (js ''tool'')))
              (JStr (js ''tool''))
      in case to_string eng toolName of
           Inl e \<Rightarrow> Inl e
         | Inr name \<Rightarrow> Inr (js ''\<newline>[tool:'' @ name @ js ''] '' @ stringify pl))"

definition token_text :: "engine \<Rightarrow> jsvalue \<Rightarrow> js_error + jsstring" where
  "token_text eng pl =
     (let token = or_value (opt_chain (Some pl) (js ''text'')) (JStr [])
      in to_string eng token)"

text \<open>\<^verbatim>\<open>setMessages\<close> with the updater that appends to the content of the messages of the
  turn. The updaters are applied to the list in the order of the calls, so the list is
  passed along. An updater runs inside React, not inside the \<^verbatim>\<open>try\<close> block: when its
  template literal throws, \<^verbatim>\<open>send\<close> goes on as after any other call, and this update is
  not made. What React then does with the failed render is outside \<^verbatim>\<open>send\<close>.\<close>

definition setMessages_append :: "jsstring \<Rightarrow> js_error + jsstring \<Rightarrow> message list \<Rightarrow> message list" where
  "setMessages_append assistantId added prev =
     (case added of
        Inl e \<Rightarrow> prev
      | Inr s \<Rightarrow>
          map (\<lambda>m. if msg_id m = Some assistantId then m\<lparr>content := content m @ s\<rparr> else m) prev)"

text \<open>The body of the loop over the blocks, for one parsed event: the new message list, or
  the error thrown.\<close>

definition dispatch ::
  "engine \<Rightarrow> jsstring \<Rightarrow> sse_event \<Rightarrow> message list \<Rightarrow> js_error + message list" where
  "dispatch eng assistantId evt prev =
     (if event evt = js ''tool_call'' then
        Inr (setMessages_append assistantId (tool_annotation eng (payload evt)) prev)
      else if event evt = js ''token'' then
        Inr (setMessages_append assistantId (token_text eng (payload evt)) prev)
      else if event evt = js ''error'' then
        (case to_string eng
                (or_value (opt_chain (Some (payload evt)) (js ''message'')) (JStr (js ''Stream error''))) of
           Inl e \<Rightarrow> Inl e
         | Inr s \<Rightarrow> Inl (Error s))
      else Inr prev)"

text \<open>The loop over the blocks of one chunk; it ends at the first error thrown, with the
  messages as they are then.\<close>

fun dispatch_blocks ::
  "engine \<Rightarrow> jsstring \<Rightarrow> jsstring list \<Rightarrow> message list \<Rightarrow> message list \<times> js_error option" where
  "dispatch_blocks eng assistantId [] prev = (prev, None)"
| "dispatch_blocks eng assistantId (block # blocks) prev =
     (case parseSseBlock block of
        None \<Rightarrow> dispatch_blocks eng assistantId blocks prev
      | Some evt \<Rightarrow>
          (case dispatch eng assistantId evt prev of
             Inl err \<Rightarrow> (prev, Some err)
           | Inr prev' \<Rightarrow> dispatch_blocks eng assistantId blocks prev'))"

section \<open>The stream reader and \<^verbatim>\<open>send\<close>\<close>

text \<open>
  What the network gives to one call of \<^verbatim>\<open>fetch\<close>: a rejection, or a response with a
  status and a body. The body is the chunks that \<^verbatim>\<open>reader.read()\<close> returns one after the
  other and the way the stream ends: the completion signal, or a read that is rejected.
  The list of chunks is finite; a body that never ends, on which the loop of \<^verbatim>\<open>send\<close>
  waits for ever, is not a value of this type.
\<close>

datatype read_end = Done | Rejected js_error

record body_stream =
  chunks :: "byte list list"
  ending :: read_end

record response =
  status :: nat
  body :: "body_stream option"

datatype fetch_result = Failed js_error | Response response

definition ok :: "response \<Rightarrow> bool" where
  "ok r = (200 \<le> status r \<and> status r \<le> 299)"

text \<open>\<^verbatim>\<open>await r.json()\<close>: the whole body is read, decoded as UTF-8 and parsed.\<close>

definition response_json :: "engine \<Rightarrow> response \<Rightarrow> js_error + jsvalue" where
  "response_json eng r =
     (case (case body r of
              None \<Rightarrow> Inr []
            | Some b \<Rightarrow>
                (case ending b of
                   Rejected e \<Rightarrow> Inl e
                 | Done \<Rightarrow> Inr (snd (decode new_TextDecoder (concat (chunks b)) False)))) of
        Inl e \<Rightarrow> Inl e
      | Inr text \<Rightarrow>
          (case JSON_parse text of
             None \<Rightarrow> Inl (SyntaxError (syntax_error_message eng text))
           | Some v \<Rightarrow> Inr v))"

text \<open>One turn of the \<^verbatim>\<open>while\<close> loop after the read: decode the chunk, add it to the
  buffer, split, keep the last segment and dispatch the others.\<close>

definition consume ::
  "engine \<Rightarrow> jsstring \<Rightarrow> text_decoder \<times> jsstring \<Rightarrow> byte list \<Rightarrow> bool \<Rightarrow> message list
   \<Rightarrow> (text_decoder \<times> jsstring) \<times> message list \<times> js_error option" where
  "consume eng assistantId db val done prev =
     (case decode (fst db) val (\<not> done) of
        (td', text) \<Rightarrow>
          (let blocks = js_split delimiter (snd db @ text);
               buffer' = (if blocks = [] then [] else last blocks);
               blocks' = butlast blocks
           in case dispatch_blocks eng assistantId blocks' prev of
                (prev', err) \<Rightarrow> ((td', buffer'), prev', err)))"

text \<open>The \<^verbatim>\<open>while (!done)\<close> loop over the reads of the body.\<close>

fun read_loop ::
  "engine \<Rightarrow> jsstring \<Rightarrow> text_decoder \<times> jsstring \<Rightarrow> byte list list \<Rightarrow> read_end \<Rightarrow> message list
   \<Rightarrow> message list \<times> js_error option" where
  "read_loop eng assistantId db [] Done prev =
     (case consume eng assistantId db [] True prev of (db', prev', err) \<Rightarrow> (prev', err))"
| "read_loop eng assistantId db [] (Rejected e) prev = (prev, Some e)"
| "read_loop eng assistantId db (chunk # rest) fin prev =
     (case consume eng assistantId db chunk False prev of
        (db', prev', Some err) \<Rightarrow> (prev', Some err)
      | (db', prev', None) \<Rightarrow> read_loop eng assistantId db' rest fin prev')"

text \<open>The text that the loop has decoded when it ends, from the state of the decoder at
  the first read, and the blocks that it has handed to the frame parser: every segment of
  that text but the last.\<close>

fun stream_text :: "text_decoder \<Rightarrow> byte list list \<Rightarrow> read_end \<Rightarrow> jsstring" where
  "stream_text td [] Done = snd (decode td [] False)"
| "stream_text td [] (Rejected e) = []"
| "stream_text td (chunk # rest) fin =
     snd (decode td chunk True) @ stream_text (fst (decode td chunk True)) rest fin"

definition complete_frames :: "body_stream \<Rightarrow> jsstring list" where
  "complete_frames b =
     butlast (js_split delimiter (stream_text new_TextDecoder (chunks b) (ending b)))"

text \<open>The state of the component: the input text (\<^verbatim>\<open>text\<close> in the source), the
  messages, the semantic memories and the loading flag.\<close>

record app_state =
  text_st :: jsstring
  messages :: "message list"
  semantic :: jsvalue
  loading :: bool

text \<open>\<^verbatim>\<open>loadSemantic\<close>, with the result of its own \<^verbatim>\<open>fetch\<close>: the value given to
  \<^verbatim>\<open>setSemantic\<close>, or the error thrown.\<close>

definition fetch_memories :: "engine \<Rightarrow> fetch_result \<Rightarrow> js_error + jsvalue" where
  "fetch_memories eng fr =
     (case fr of
        Failed e \<Rightarrow> Inl e
      | Response r \<Rightarrow>
          (case response_json eng r of
             Inl e \<Rightarrow> Inl e
           | Inr data \<Rightarrow>
               if data = JNull then Inl (TypeError (null_property_message eng (js ''memories'')))
               else Inr (or_value (get_prop data (js ''memories'')) (JArr []))))"

definition loadSemantic :: "engine \<Rightarrow> fetch_result \<Rightarrow> app_state \<Rightarrow> js_error + app_state" where
  "loadSemantic eng fr st =
     (case fetch_memories eng fr of
        Inl e \<Rightarrow> Inl e
      | Inr v \<Rightarrow> Inr (st\<lparr>semantic := v\<rparr>))"

text \<open>The branch for \<^verbatim>\<open>!r.ok || !r.body\<close>: the value of
  \<^verbatim>\<open>data.detail || data.error || 'Request failed'\<close> and the error that the branch
  throws. The body is read and parsed; the value given to \<^verbatim>\<open>new Error\<close> is converted to
  a string there.\<close>

definition failure_value :: "jsvalue \<Rightarrow> jsvalue" where
  "failure_value data =
     or_value (or_else (get_prop data (js ''detail'')) (get_prop data (js ''error'')))
       (JStr (js ''Request failed''))"

definition request_failure :: "engine \<Rightarrow> response \<Rightarrow> js_error" where
  "request_failure eng r =
     (case response_json eng r of
        Inl e \<Rightarrow> e
      | Inr data \<Rightarrow>
          if data = JNull then TypeError (null_property_message eng (js ''detail''))
          else
            (case to_string eng (failure_value data) of
               Inl e \<Rightarrow> e
             | Inr s \<Rightarrow> Error s))"

text \<open>The \<^verbatim>\<open>try\<close> block of \<^verbatim>\<open>send\<close>: the state when it ends and the error thrown, if
  any. The streaming branch is taken when \<^verbatim>\<open>!r.ok || !r.body\<close> is false.\<close>

definition try_block ::
  "engine \<Rightarrow> jsstring \<Rightarrow> fetch_result \<Rightarrow> fetch_result \<Rightarrow> app_state \<Rightarrow> app_state \<times> js_error option" where
  "try_block eng assistantId fr sem st =
     (case fr of
        Failed e \<Rightarrow> (st, Some e)
      | Response r \<Rightarrow>
          (case (ok r, body r) of
             (True, Some b) \<Rightarrow>
               (case read_loop eng assistantId (new_TextDecoder, []) (chunks b) (ending b) (messages st) of
                  (prev', Some e) \<Rightarrow> (st\<lparr>messages := prev'\<rparr>, Some e)
                | (prev', None) \<Rightarrow>
                    (case loadSemantic eng sem (st\<lparr>messages := prev'\<rparr>) of
                       Inl e \<Rightarrow> (st\<lparr>messages := prev'\<rparr>, Some e)
                     | Inr st' \<Rightarrow> (st', None)))
           | _ \<Rightarrow> (st, Some (request_failure eng r))))"

text \<open>The state when the \<^verbatim>\<open>try\<close> block is entered: the input is cleared, the flag is
  set, and the user's message and the empty assistant message are appended.\<close>

definition start_turn :: "jsstring \<Rightarrow> app_state \<Rightarrow> app_state" where
  "start_turn assistantId st =
     st\<lparr>text_st := [], loading := True,
        messages := messages st @
          [\<lparr>msg_id = None, role = User, content = trim (text_st st)\<rparr>,
           \<lparr>msg_id = Some assistantId, role = Assistant, content = []\<rparr>]\<rparr>"

text \<open>The \<^verbatim>\<open>catch\<close> handler's update of the messages.\<close>

definition catch_handler :: "jsstring \<Rightarrow> js_error \<Rightarrow> message list \<Rightarrow> message list" where
  "catch_handler assistantId err prev =
     map (\<lambda>m. if msg_id m = Some assistantId
               then m\<lparr>content := js ''Error: '' @ err_message err\<rparr>
               else m) prev"

text \<open>\<^verbatim>\<open>send\<close>. \<open>assistantId\<close> is the identifier made from the clock, \<open>fr\<close> the outcome of
  the streaming request and \<open>sem\<close> the outcome of the request of \<^verbatim>\<open>loadSemantic\<close>.\<close>

definition send ::
  "engine \<Rightarrow> jsstring \<Rightarrow> fetch_result \<Rightarrow> fetch_result \<Rightarrow> app_state \<Rightarrow> app_state" where
  "send eng assistantId fr sem st =
     (if trim (text_st st) = [] \<or> loading st then st
      else
        case try_block eng assistantId fr sem (start_turn assistantId st) of
          (st2, Some err) \<Rightarrow>
            st2\<lparr>messages := catch_handler assistantId err (messages st2), loading := False\<rparr>
        | (st2, None) \<Rightarrow> st2\<lparr>loading := False\<rparr>)"

text \<open>What the loop returns when the dispatch of all the blocks of the stream gives
  \<open>res\<close>: an error thrown by the dispatch ends the loop, and otherwise the loop ends as
  the stream does.\<close>

definition finish ::
  "read_end \<Rightarrow> message list \<times> js_error option \<Rightarrow> message list \<times> js_error option" where
  "finish fin res =
     (case res of
        (p, Some e) \<Rightarrow> (p, Some e)
      | (p, None) \<Rightarrow> (p, case fin of Done \<Rightarrow> None | Rejected e \<Rightarrow> Some e))"

text \<open>A block that is not an \<^verbatim>\<open>error\<close> event.\<close>

definition not_error_event :: "jsstring \<Rightarrow> bool" where
  "not_error_event block =
     (case parseSseBlock block of None \<Rightarrow> True | Some evt \<Rightarrow> event evt \<noteq> js ''error'')"

text \<open>A block that is a \<^verbatim>\<open>token\<close> event whose payload has the string \<open>t\<close> as its
  \<^verbatim>\<open>text\<close>.\<close>

definition token_frame :: "jsstring \<Rightarrow> jsstring \<Rightarrow> bool" where
  "token_frame block t =
     (case parseSseBlock block of
        None \<Rightarrow> False
      | Some evt \<Rightarrow>
          event evt = js ''token'' \<and> get_prop (payload evt) (js ''text'') = Some (JStr t))"

text \<open>A block and the text that its dispatch appends to the content of the assistant
  message: the annotation of a \<^verbatim>\<open>tool_call\<close> event, the text of a \<^verbatim>\<open>token\<close> event, and
  nothing for a block that is no event or an event of another name, except \<^verbatim>\<open>error\<close>.\<close>

definition frame_appends :: "engine \<Rightarrow> jsstring \<Rightarrow> jsstring \<Rightarrow> bool" where
  "frame_appends eng block t =
     (case parseSseBlock block of
        None \<Rightarrow> t = []
      | Some evt \<Rightarrow>
          if event evt = js ''tool_call'' then tool_annotation eng (payload evt) = Inr t
          else if event evt = js ''token'' then token_text eng (payload evt) = Inr t
          else event evt \<noteq> js ''error'' \<and> t = [])"

text \<open>A block none of whose lines is an event-name line or a data line.\<close>

definition no_field_lines :: "jsstring \<Rightarrow> bool" where
  "no_field_lines block =
     list_all (\<lambda>line. \<not> (startsWith line (js ''event:'') \<or> startsWith line (js ''data:'')))
       (js_split nl block)"

text \<open>A payload that is \<^verbatim>\<open>null\<close>, is not an object, or is an object without a
  \<^verbatim>\<open>text\<close> property.\<close>

fun lacks_text :: "jsvalue \<Rightarrow> bool" where
  "lacks_text (JObj props) = (map_of props (js ''text'') = None)"
| "lacks_text v = True"

text \<open>The frame condition of an update of the message list for the turn of
  \<open>assistantId\<close>: the same length, the same identifiers and roles in the same order, and
  every message with another identifier the same.\<close>

definition frame_preserved :: "jsstring \<Rightarrow> message list \<Rightarrow> message list \<Rightarrow> bool" where
  "frame_preserved assistantId prev prev' =
     (length prev' = length prev \<and>
      list_all2 (\<lambda>m m'. msg_id m' = msg_id m \<and> role m' = role m \<and>
                          (msg_id m = Some assistantId \<or> m' = m)) prev prev')"

section \<open>Example inputs\<close>

definition ascii :: "string \<Rightarrow> byte list" where
  "ascii s = map (\<lambda>c. of_nat (of_char c)) s"

definition example_engine :: engine where
  "example_engine =
     \<lparr>syntax_error_message = (\<lambda>t. js ''Unexpected token''),
      null_property_message = (\<lambda>p. js ''Cannot read properties of null''),
      to_primitive_message = js ''Cannot convert object to primitive value''\<rparr>"

definition example_state :: app_state where
  "example_state =
     \<lparr>text_st = js '' hi '',
      messages = [\<lparr>msg_id = None, role = User, content = js ''hello''\<rparr>,
                  \<lparr>msg_id = Some (js ''a-0''), role = Assistant, content = js ''Hi there''\<rparr>],
      semantic = JArr [], loading = False\<rparr>"

definition example_memories :: fetch_result where
  \<open>example_memories =
     Response \<lparr>status = 200,
               body = Some \<lparr>chunks = [ascii ''{"memories":["m"]}''], ending = Done\<rparr>\<rparr>\<close>

definition token_He :: "byte list" where
  \<open>token_He = ascii ''event: token\<newline>data: {"text":"He"}\<newline>\<newline>''\<close>

definition token_llo :: "byte list" where
  \<open>token_llo = ascii ''event: token\<newline>data: {"text":"llo"}\<newline>\<newline>''\<close>

definition error_boom :: "byte list" where
  \<open>error_boom = ascii ''event: error\<newline>data: {"message":"boom"}\<newline>\<newline>''\<close>

definition example_stream :: "byte list list \<Rightarrow> read_end \<Rightarrow> fetch_result" where
  "example_stream cs fin = Response \<lparr>status = 200, body = Some \<lparr>chunks = cs, ending = fin\<rparr>\<rparr>"

definition example_failure :: "nat \<Rightarrow> byte list \<Rightarrow> fetch_result" where
  "example_failure code bytes =
     Response \<lparr>status = code, body = Some \<lparr>chunks = [bytes], ending = Done\<rparr>\<rparr>"

section \<open>Evaluation\<close>

text \<open>The recursion equations of the digit counts are unconditional; they are used for
  evaluation only.\<close>

declare bit_length.simps [simp del] dec_length.simps [simp del]
  dec_digits_acc.simps [simp del] strip_zeros.simps [simp del]

lemmas eval =
  js_def startsWith_def is_js_space_def trim_def nl_def delimiter_def new_utf8_decoder_def
  new_TextDecoder_def utf8_lead_def utf8_byte_def utf8_end_def utf16_def decode_def
  is_json_space_def is_digit_def hex_digit_def simple_escape_def
  scan_escape_def number_literal_def scan_number_def open_value_def JSON_parse_def hex_char_def
  unicode_escape_def quote_unit_def is_lead_def is_trail_def quote_def digits_value_def
  is_array_index_def own_props_def parse_line_def block_fields_def raw_payload_def
  parseSseBlock_def tool_annotation_def token_text_def setMessages_append_def dispatch_def
  ok_def response_json_def consume_def complete_frames_def
  fetch_memories_def loadSemantic_def failure_value_def request_failure_def try_block_def
  start_turn_def catch_handler_def send_def finish_def not_error_event_def token_frame_def
  frame_appends_def no_field_lines_def frame_preserved_def Let_def ascii_def example_engine_def
  example_state_def example_memories_def token_He_def token_llo_def error_boom_def
  example_stream_def example_failure_def

lemmas eval_double =
  round_to_double_def floor_log_def round_half_even_def scale_num_def scale_den_def
  bit_length.simps Let_def

section \<open>Numbers\<close>

lemma bit_length_upper: "n < 2 ^ bit_length n"
proof (induction n rule: bit_length.induct)
  case (1 n)
  show ?case
  proof (cases "n = 0")
    case True
    then show ?thesis by (simp add: bit_length.simps)
  next
    case False
    with 1 have "n div 2 < 2 ^ bit_length (n div 2)" by simp
    then have "n < 2 * 2 ^ bit_length (n div 2)" by arith
    with False show ?thesis by (subst bit_length.simps) simp
  qed
qed

lemma bit_length_lower: "0 < n \<Longrightarrow> 2 ^ bit_length n \<le> 2 * n"
proof (induction n rule: bit_length.induct)
  case (1 n)
  show ?case
  proof (cases "n div 2 = 0")
    case True
    with 1(2) have "n = 1" by arith
    then show ?thesis by (simp add: bit_length.simps)
  next
    case False
    with 1 have "2 ^ bit_length (n div 2) \<le> 2 * (n div 2)" by simp
    then have "2 * 2 ^ bit_length (n div 2) \<le> 2 * n" by arith
    with 1(2) show ?thesis by (subst bit_length.simps) simp
  qed
qed

text \<open>A fraction below half of the least positive double is read as zero.\<close>

lemma round_to_double_underflow:
  assumes "0 < n" and "n * 2 ^ 1075 < d"
  shows "round_to_double n d = Some (0, 0)"
proof -
  have "2 ^ (bit_length n + 1074) \<le> n * 2 ^ 1075"
    using bit_length_lower [OF assms(1)] by (simp add: power_add)
  also have "\<dots> < d" by (rule assms(2))
  also have "d < 2 ^ bit_length d" by (rule bit_length_upper)
  finally have "bit_length n + 1074 < bit_length d" by simp
  then have "floor_log 2 bit_length n d \<le> - 1075"
    by (simp add: floor_log_def Let_def)
  then have q: "max (floor_log 2 bit_length n d - 52) (- 1074) = - 1074" by simp
  have lt: "n * 2 ^ 1074 < d" using assms(2) by simp
  have "round_half_even (n * 2 ^ 1074) d = 0"
    using lt assms(2) by (simp add: round_half_even_def Let_def)
  then show ?thesis
    by (simp add: round_to_double_def q scale_num_def scale_den_def Let_def)
qed

text \<open>The literal \<^verbatim>\<open>1e-400\<close> is read as zero.\<close>

lemma to_number_underflow: "to_number (js ''1e-400'') = Finite False 0 0"
proof -
  have "literal_decimal (js ''1e-400'') = (False, 1, - 400)"
    by (simp add: js_def startsWith_def is_digit_def digits_value_def literal_decimal_def Let_def)
  moreover have "round_to_double 1 (10 ^ 400) = Some (0, 0)"
    by (rule round_to_double_underflow) simp_all
  ultimately show ?thesis by (simp add: to_number_def scale_num_def scale_den_def)
qed

text \<open>The doubles of some literals, and the texts that are written for them.\<close>

lemma to_number_examples:
  "to_number (js ''1.50'') = Finite False 6755399441055744 (- 52)"
  "to_number (js ''1.0'') = Finite False 4503599627370496 (- 52)"
  "to_number (js ''1E2'') = Finite False 7036874417766400 (- 46)"
  "to_number (js ''-0.0'') = Finite True 0 0"
  apply (simp_all add: js_def startsWith_def is_digit_def digits_value_def literal_decimal_def
      to_number_def Let_def)
  apply (simp_all add: eval_double)
  done

lemma candidates_examples:
  "candidates 6755399441055744 (- 52) 1 (Suc 0) = []"
  "candidates 6755399441055744 (- 52) 1 2 = [15]"
  "candidates 4503599627370496 (- 52) 1 (Suc 0) = [1]"
  "candidates 7036874417766400 (- 46) 3 (Suc 0) = [1]"
  apply (simp_all add: candidates_def scale_num_def scale_den_def Let_def)
  apply (simp_all add: eval_double)
  done

lemma floor_log_examples:
  "floor_log 10 dec_length (scale_den 6755399441055744 2 (- 52)) (scale_num 1 2 (- 52)) = 0"
  "floor_log 10 dec_length (scale_den 4503599627370496 2 (- 52)) (scale_num 1 2 (- 52)) = 0"
  "floor_log 10 dec_length (scale_den 7036874417766400 2 (- 46)) (scale_num 1 2 (- 46)) = 2"
  by (simp_all add: floor_log_def scale_num_def scale_den_def dec_length.simps Let_def)

lemma upt_18: "[1..<18] = [1, 2, 3, 4, 5, 6, 7, 8, 9, 10, 11, 12, 13, 14, 15, 16, 17]"
  by (simp add: upt_rec)

lemma shortest_examples:
  "shortest 6755399441055744 (- 52) = (15, 1)"
  "shortest 4503599627370496 (- 52) = (1, 1)"
  "shortest 7036874417766400 (- 46) = (1, 3)"
  apply (simp_all only: shortest_def floor_log_examples Let_def upt_18)
  apply (simp_all add: candidates_examples)
  done

lemma replicate_numeral: "replicate (numeral k) x = x # replicate (pred_numeral k) x"
  by (simp add: numeral_eq_Suc)

lemma number_to_string_examples:
  "number_to_string (Finite False 6755399441055744 (- 52)) = js ''1.5''"
  "number_to_string (Finite False 4503599627370496 (- 52)) = js ''1''"
  "number_to_string (Finite False 7036874417766400 (- 46)) = js ''100''"
  "number_to_string (Finite True 0 0) = js ''0''"
  by (simp_all add: number_to_string_def shortest_examples dec_digits_def dec_digits_acc.simps
      strip_zeros.simps js_def Let_def replicate_numeral)

text \<open>So \<^verbatim>\<open>String(1.50)\<close> is \<^verbatim>\<open>1.5\<close>, \<^verbatim>\<open>JSON.stringify\<close> writes \<^verbatim>\<open>1.0\<close> as \<^verbatim>\<open>1\<close> and
  \<^verbatim>\<open>1E2\<close> as \<^verbatim>\<open>100\<close>, and \<^verbatim>\<open>1e-400\<close> is falsy.\<close>

lemma number_conversions:
  "to_string eng (JNum (to_number (js ''1.50''))) = Inr (js ''1.5'')"
  "stringify (JNum (to_number (js ''1.0''))) = js ''1''"
  "stringify (JNum (to_number (js ''1E2''))) = js ''100''"
  "stringify (JNum (to_number (js ''-0.0''))) = js ''0''"
  "\<not> truthy (JNum (to_number (js ''1e-400'')))"
  by (simp_all add: to_number_examples to_number_underflow number_to_string_examples)

text \<open>A failure body with a number as its \<^verbatim>\<open>detail\<close>, and one whose \<^verbatim>\<open>detail\<close> has a
  \<^verbatim>\<open>toString\<close> of its own.\<close>

lemma failure_detail_examples:
  \<open>content (last (messages (send example_engine (js ''a-1'')
      (example_failure 500 (ascii ''{"detail":1.50}'')) example_memories example_state))) =
    js ''Error: 1.5''\<close>
  \<open>content (last (messages (send example_engine (js ''a-1'')
      (example_failure 500 (ascii ''{"detail":{"toString":1.0}}'')) example_memories example_state))) =
    js ''Error: Cannot convert object to primitive value''\<close>
  \<open>content (last (messages (send example_engine (js ''a-1'')
      (example_failure 500 (ascii ''{"detail":[true,null,{}]}'')) example_memories example_state))) =
    js ''Error: true,,[object Object]''\<close>
  by (simp_all add: eval to_number_examples [unfolded js_def, simplified]
      number_to_string_examples)

section \<open>Splitting and joining\<close>

lemma js_split_nonempty: "sep \<noteq> [] \<Longrightarrow> js_split sep s \<noteq> []"
  by (induction sep s rule: js_split.induct) (auto split: list.splits)

lemma js_join_cons: "xs \<noteq> [] \<Longrightarrow> js_join sep (x # xs) = x @ sep @ js_join sep xs"
  by (cases xs) auto

lemma js_join_cons_head:
  "js_join sep ((c # seg) # segs) = c # js_join sep (seg # segs)"
  by (cases segs) auto

lemma startsWith_length: "startsWith a sep \<Longrightarrow> length sep \<le> length a"
proof -
  assume "startsWith a sep"
  then have "length (take (length sep) a) = length sep" by (simp add: startsWith_def)
  then show ?thesis by simp
qed

lemma startsWith_decomp: "startsWith a sep \<Longrightarrow> a = sep @ drop (length sep) a"
proof -
  assume "startsWith a sep"
  then have "take (length sep) a = sep" by (simp add: startsWith_def)
  then have "take (length sep) a @ drop (length sep) a = sep @ drop (length sep) a" by simp
  then show ?thesis by simp
qed

lemma startsWith_append: "startsWith a sep \<Longrightarrow> startsWith (a @ b) sep"
proof -
  assume a: "startsWith a sep"
  from startsWith_length [OF a] a show ?thesis by (simp add: startsWith_def)
qed

lemma startsWith_append_long:
  "length sep \<le> length a \<Longrightarrow> startsWith (a @ b) sep = startsWith a sep"
  by (simp add: startsWith_def)

text \<open>Joining the segments with the separator gives the text back.\<close>

lemma js_join_split: "sep \<noteq> [] \<Longrightarrow> js_join sep (js_split sep s) = s"
proof (induction sep s rule: js_split.induct)
  case (1 sep)
  then show ?case by simp
next
  case (2 sep c cs)
  note ne = "2.prems"
  show ?case
  proof (cases "startsWith (c # cs) sep")
    case True
    from "2.IH"(2) [OF ne True ne]
    have ih: "js_join sep (js_split sep (drop (length sep - 1) cs)) = drop (length sep - 1) cs" .
    from ne have d: "drop (length sep) (c # cs) = drop (length sep - 1) cs"
      by (cases sep) auto
    from True ne have "js_split sep (c # cs) = [] # js_split sep (drop (length sep - 1) cs)"
      by simp
    then have "js_join sep (js_split sep (c # cs)) = sep @ drop (length sep - 1) cs"
      using ih js_split_nonempty [OF ne, of "drop (length sep - 1) cs"]
      by (simp add: js_join_cons)
    also have "\<dots> = c # cs"
      using startsWith_decomp [OF True] d by simp
    finally show ?thesis .
  next
    case False
    from "2.IH"(3) [OF ne False ne] have ih: "js_join sep (js_split sep cs) = cs" .
    from js_split_nonempty [OF ne, of cs] obtain seg segs where
      s: "js_split sep cs = seg # segs" by (cases "js_split sep cs") auto
    with False ne ih show ?thesis by (simp add: js_join_cons_head)
  qed
qed

lemma js_split_single: "sep \<noteq> [] \<Longrightarrow> js_split sep s = [x] \<Longrightarrow> x = s"
  using js_join_split [of sep s] by simp

lemma js_split_short: "length s < length sep \<Longrightarrow> js_split sep s = [s]"
proof (induction s)
  case Nil
  then show ?case by auto
next
  case (Cons c cs)
  from Cons.prems have "\<not> startsWith (c # cs) sep"
    using startsWith_length [of "c # cs" sep] by auto
  with Cons show ?case by auto
qed

text \<open>Splitting a text that grows: the segments before the last one stay as they are, and
  the new text continues the last one.\<close>

lemma js_split_append:
  "sep \<noteq> [] \<Longrightarrow>
   js_split sep (a @ b) = butlast (js_split sep a) @ js_split sep (last (js_split sep a) @ b)"
proof (induction sep a rule: js_split.induct)
  case (1 sep)
  then show ?case by simp
next
  case (2 sep c cs)
  note ne = "2.prems"
  show ?case
  proof (cases "startsWith (c # cs) sep")
    case True
    then have len: "length sep \<le> Suc (length cs)"
      using startsWith_length [of "c # cs" sep] by simp
    from True have sw: "startsWith ((c # cs) @ b) sep" by (rule startsWith_append)
    from len have dr: "drop (length sep - 1) (cs @ b) = drop (length sep - 1) cs @ b"
      by simp
    from "2.IH"(2) [OF ne True ne]
    have ih: "js_split sep (drop (length sep - 1) cs @ b) =
        butlast (js_split sep (drop (length sep - 1) cs)) @
        js_split sep (last (js_split sep (drop (length sep - 1) cs)) @ b)" .
    from sw ne have "js_split sep ((c # cs) @ b) = [] # js_split sep (drop (length sep - 1) cs @ b)"
      using dr by simp
    with True ne ih js_split_nonempty [OF ne, of "drop (length sep - 1) cs"]
    show ?thesis by simp
  next
    case False
    show ?thesis
    proof (cases "startsWith ((c # cs) @ b) sep")
      case True
      with False have "length (c # cs) < length sep"
        using startsWith_append_long [of sep "c # cs" b] by (cases "length sep \<le> length (c # cs)") auto
      then have "js_split sep (c # cs) = [c # cs]" by (rule js_split_short)
      then show ?thesis by simp
    next
      case nsw: False
      from "2.IH"(3) [OF ne False ne]
      have ih: "js_split sep (cs @ b) =
          butlast (js_split sep cs) @ js_split sep (last (js_split sep cs) @ b)" .
      from js_split_nonempty [OF ne, of cs] obtain seg segs where
        s: "js_split sep cs = seg # segs" by (cases "js_split sep cs") auto
      show ?thesis
      proof (cases segs)
        case Nil
        with s js_split_single [OF ne, of cs seg] have "seg = cs" by simp
        with s Nil False ne show ?thesis by simp
      next
        case (Cons g gs)
        with s ih have "js_split sep (cs @ b) =
            seg # butlast segs @ js_split sep (last segs @ b)" by simp
        with nsw ne have "js_split sep ((c # cs) @ b) =
            (c # seg) # butlast segs @ js_split sep (last segs @ b)" by simp
        with s Cons False ne show ?thesis by simp
      qed
    qed
  qed
qed

text \<open>The last segment holds no separator.\<close>

lemma js_split_last:
  "sep \<noteq> [] \<Longrightarrow> js_split sep (last (js_split sep s)) = [last (js_split sep s)]"
proof (induction sep s rule: js_split.induct)
  case (1 sep)
  then show ?case by simp
next
  case (2 sep c cs)
  note ne = "2.prems"
  show ?case
  proof (cases "startsWith (c # cs) sep")
    case True
    with "2.IH"(2) [OF ne True ne] ne
      js_split_nonempty [OF ne, of "drop (length sep - 1) cs"]
    show ?thesis by simp
  next
    case False
    from js_split_nonempty [OF ne, of cs] obtain seg segs where
      s: "js_split sep cs = seg # segs" by (cases "js_split sep cs") auto
    show ?thesis
    proof (cases segs)
      case Nil
      with s js_split_single [OF ne, of cs seg] have "seg = cs" by simp
      with s Nil False ne show ?thesis by simp
    next
      case (Cons g gs)
      with s False ne "2.IH"(3) [OF ne False ne] show ?thesis by simp
    qed
  qed
qed

lemma js_split_head_empty:
  "js_split sep (a # as) = [a # as] \<Longrightarrow> sep \<noteq> [] \<Longrightarrow>
   \<not> startsWith (a # as) sep \<and> js_split sep as = [as]"
  by (auto split: if_splits list.splits)

lemma js_split_snoc:
  "js_split sep s = [s] \<Longrightarrow> sep \<noteq> [] \<Longrightarrow> c \<noteq> last sep \<Longrightarrow>
   js_split sep (s @ [c]) = [s @ [c]]"
proof (induction s)
  case Nil
  have "\<not> startsWith [c] sep"
  proof
    assume sw: "startsWith [c] sep"
    from startsWith_length [OF sw] Nil.prems(2) have "length sep = 1"
      by (cases sep) auto
    with sw have "sep = [c]" by (cases sep) (auto simp: startsWith_def)
    with Nil.prems(3) show False by simp
  qed
  with Nil.prems(2) show ?case by simp
next
  case (Cons a as)
  from js_split_head_empty [OF Cons.prems(1,2)]
  have nsw: "\<not> startsWith (a # as) sep" and rest: "js_split sep as = [as]" by simp_all
  from Cons.IH [OF rest Cons.prems(2,3)] have ih: "js_split sep (as @ [c]) = [as @ [c]]" .
  have "\<not> startsWith (a # as @ [c]) sep"
  proof
    assume sw: "startsWith (a # as @ [c]) sep"
    show False
    proof (cases "length sep \<le> length (a # as)")
      case True
      with sw nsw startsWith_append_long [of sep "a # as" "[c]"] show False by simp
    next
      case False
      with startsWith_length [OF sw] have "length sep = length (a # as @ [c])" by simp
      with sw have "sep = a # as @ [c]" by (simp add: startsWith_def)
      with Cons.prems(3) show False by simp
    qed
  qed
  with ih Cons.prems(2) show ?case by simp
qed

section \<open>Decoding in chunks\<close>

lemma delimiter_nonempty: "delimiter \<noteq> []"
  by (simp add: delimiter_def)

lemma utf8_bytes_append:
  "utf8_bytes d (a @ b) =
     (case utf8_bytes d a of (d1, o1) \<Rightarrow>
        (case utf8_bytes d1 b of (d2, o2) \<Rightarrow> (d2, o1 @ o2)))"
  by (induction a arbitrary: d) (auto split: prod.splits)

lemma serialize_append:
  "serialize seen (xs @ ys) =
     (case serialize seen xs of (s1, t1) \<Rightarrow>
        (case serialize s1 ys of (s2, t2) \<Rightarrow> (s2, t1 @ t2)))"
  by (induction seen xs rule: serialize.induct) (auto split: prod.splits)

lemma decode_append:
  "decode td (a @ b) True =
     (case decode td a True of (td1, t1) \<Rightarrow>
        (case decode td1 b True of (td2, t2) \<Rightarrow> (td2, t1 @ t2)))"
proof -
  define td0 where "td0 = (if do_not_flush td then td else new_TextDecoder)"
  obtain d1 o1 where u1: "utf8_bytes (decoder td0) a = (d1, o1)"
    by (cases "utf8_bytes (decoder td0) a")
  obtain d2 o2 where u2: "utf8_bytes d1 b = (d2, o2)"
    by (cases "utf8_bytes d1 b")
  obtain s1 t1 where z1: "serialize (bom_seen td0) o1 = (s1, t1)"
    by (cases "serialize (bom_seen td0) o1")
  obtain s2 t2 where z2: "serialize s1 o2 = (s2, t2)"
    by (cases "serialize s1 o2")
  have A: "decode td a True = (\<lparr>decoder = d1, bom_seen = s1, do_not_flush = True\<rparr>, t1)"
    using u1 z1 by (simp add: decode_def td0_def)
  have B: "decode \<lparr>decoder = d1, bom_seen = s1, do_not_flush = True\<rparr> b True =
      (\<lparr>decoder = d2, bom_seen = s2, do_not_flush = True\<rparr>, t2)"
    using u2 z2 by (simp add: decode_def)
  have C: "decode td (a @ b) True =
      (\<lparr>decoder = d2, bom_seen = s2, do_not_flush = True\<rparr>, t1 @ t2)"
    using u1 u2 z1 z2 by (simp add: decode_def td0_def utf8_bytes_append serialize_append)
  show ?thesis using A B C by simp
qed

lemma decode_empty_stream:
  "decode td [] True =
     (\<lparr>decoder = decoder (if do_not_flush td then td else new_TextDecoder),
       bom_seen = bom_seen (if do_not_flush td then td else new_TextDecoder),
       do_not_flush = True\<rparr>, [])"
  by (simp add: decode_def Let_def)

lemma decode_flush:
  "snd (decode td [] False) = [] \<or> snd (decode td [] False) = [0xFFFD]"
  by (simp add: decode_def utf8_end_def utf16_def Let_def)

lemma stream_text_merge:
  "stream_text td (a # b # rest) fin = stream_text td ((a @ b) # rest) fin"
  by (simp add: decode_append split: prod.splits)

lemma stream_text_empty_chunk: "stream_text td [[]] fin = stream_text td [] fin"
  by (cases fin) (simp_all add: decode_def Let_def split: prod.splits)

text \<open>The decoded text of a stream depends on the bytes only, not on the chunks.\<close>

lemma stream_text_concat: "stream_text td cs fin = stream_text td [concat cs] fin"
proof (induction cs arbitrary: td)
  case Nil
  then show ?case by (simp only: concat.simps stream_text_empty_chunk)
next
  case (Cons c cs)
  have "stream_text td (c # cs) fin =
      snd (decode td c True) @ stream_text (fst (decode td c True)) cs fin" by simp
  also have "\<dots> = snd (decode td c True) @ stream_text (fst (decode td c True)) [concat cs] fin"
    using Cons.IH by simp
  also have "\<dots> = stream_text td [c, concat cs] fin" by simp
  also have "\<dots> = stream_text td [c @ concat cs] fin" by (rule stream_text_merge)
  finally show ?case by simp
qed

lemma complete_frames_concat:
  "concat cs = concat cs' \<Longrightarrow>
   complete_frames \<lparr>chunks = cs, ending = fin\<rparr> = complete_frames \<lparr>chunks = cs', ending = fin\<rparr>"
  using stream_text_concat [of new_TextDecoder cs fin] stream_text_concat [of new_TextDecoder cs' fin]
  by (simp add: complete_frames_def)

section \<open>The read loop\<close>

lemma dispatch_blocks_append:
  "dispatch_blocks eng aid (xs @ ys) prev =
     (case dispatch_blocks eng aid xs prev of
        (p, Some e) \<Rightarrow> (p, Some e)
      | (p, None) \<Rightarrow> dispatch_blocks eng aid ys p)"
  by (induction xs arbitrary: prev) (auto split: option.splits sum.splits prod.splits)

text \<open>The loop dispatches, in order, the complete frames of the text of the whole stream.\<close>

lemma read_loop_frames:
  "js_split delimiter buf = [buf] \<Longrightarrow>
   read_loop eng aid (td, buf) cs fin prev =
     finish fin (dispatch_blocks eng aid (butlast (js_split delimiter (buf @ stream_text td cs fin))) prev)"
proof (induction cs arbitrary: td buf prev)
  case Nil
  show ?case
  proof (cases fin)
    case Done
    then show ?thesis
      by (simp add: consume_def finish_def Let_def js_split_nonempty delimiter_nonempty
          split: prod.splits option.splits)
  next
    case (Rejected e)
    with Nil show ?thesis by (simp add: finish_def)
  qed
next
  case (Cons c cs)
  obtain td' t where dec: "decode td c True = (td', t)" by (cases "decode td c True")
  define segs where "segs = js_split delimiter (buf @ t)"
  have segs_ne: "segs \<noteq> []" by (simp add: segs_def js_split_nonempty delimiter_nonempty)
  have inv: "js_split delimiter (last segs) = [last segs]"
    unfolding segs_def by (rule js_split_last [OF delimiter_nonempty])
  have whole: "js_split delimiter (buf @ stream_text td (c # cs) fin) =
      butlast segs @ js_split delimiter (last segs @ stream_text td' cs fin)"
    using js_split_append [OF delimiter_nonempty, of "buf @ t" "stream_text td' cs fin"] dec
    by (simp add: segs_def)
  have ne2: "js_split delimiter (last segs @ stream_text td' cs fin) \<noteq> []"
    by (simp add: js_split_nonempty delimiter_nonempty)
  have bl: "butlast (js_split delimiter (buf @ stream_text td (c # cs) fin)) =
      butlast segs @ butlast (js_split delimiter (last segs @ stream_text td' cs fin))"
    using whole ne2 by (simp add: butlast_append)
  obtain p e where d1: "dispatch_blocks eng aid (butlast segs) prev = (p, e)"
    by (cases "dispatch_blocks eng aid (butlast segs) prev")
  have cons: "consume eng aid (td, buf) c False prev = ((td', last segs), p, e)"
    using dec d1 segs_ne by (simp add: consume_def Let_def segs_def)
  show ?case
  proof (cases e)
    case None
    with cons have "read_loop eng aid (td, buf) (c # cs) fin prev = read_loop eng aid (td', last segs) cs fin p"
      by simp
    also have "\<dots> = finish fin (dispatch_blocks eng aid
        (butlast (js_split delimiter (last segs @ stream_text td' cs fin))) p)"
      by (rule Cons.IH [OF inv])
    finally show ?thesis using bl d1 None by (simp add: dispatch_blocks_append)
  next
    case (Some err)
    with cons have "read_loop eng aid (td, buf) (c # cs) fin prev = (p, Some err)" by simp
    then show ?thesis using bl d1 Some by (simp add: dispatch_blocks_append finish_def)
  qed
qed

lemma read_loop_start:
  "read_loop eng aid (new_TextDecoder, []) (chunks b) (ending b) prev =
     finish (ending b) (dispatch_blocks eng aid (complete_frames b) prev)"
proof -
  have "js_split delimiter [] = [[]]" by (simp add: delimiter_def)
  from read_loop_frames [OF this] show ?thesis by (simp add: complete_frames_def)
qed

lemma read_loop_done_drops_buffer:
  assumes "js_split delimiter buffer = [buffer]"
  shows "read_loop eng aid (td, buffer) [] Done prev = (prev, None)"
proof -
  obtain td' t where dec: "decode td [] False = (td', t)" by (cases "decode td [] False")
  with decode_flush [of td] have "t = [] \<or> t = [0xFFFD]" by simp
  then have "js_split delimiter (buffer @ t) = [buffer @ t]"
    using assms js_split_snoc [OF assms delimiter_nonempty, of "0xFFFD"]
    by (auto simp: delimiter_def)
  with dec show ?thesis by (simp add: consume_def Let_def)
qed

section \<open>The dispatcher\<close>

lemma js_neq [simp]:
  "js ''token'' \<noteq> js ''tool_call''" "js ''error'' \<noteq> js ''tool_call''"
  "js ''error'' \<noteq> js ''token''" "js ''message'' \<noteq> js ''tool_call''"
  "js ''message'' \<noteq> js ''token''" "js ''message'' \<noteq> js ''error''"
  by (simp_all add: js_def)

lemma token_text_string:
  assumes "get_prop pl (js ''text'') = Some (JStr t)"
  shows "token_text eng pl = Inr t"
proof -
  from assms obtain props where "pl = JObj props" by (cases pl) auto
  with assms have "opt_chain (Some pl) (js ''text'') = Some (JStr t)" by simp
  then show ?thesis by (simp add: token_text_def Let_def)
qed

lemma dispatch_token:
  assumes "event evt = js ''token''" and "get_prop (payload evt) (js ''text'') = Some (JStr t)"
  shows "dispatch eng aid evt prev =
     Inr (map (\<lambda>m. if msg_id m = Some aid then m\<lparr>content := content m @ t\<rparr> else m) prev)"
  using assms(1) token_text_string [OF assms(2), of eng]
  by (simp add: dispatch_def setMessages_append_def)




lemma dispatch_error:
  assumes "event evt = js ''error''" and "get_prop (payload evt) (js ''message'') = Some (JStr m)"
  shows "dispatch eng aid evt prev = Inl (Error (if m = [] then js ''Stream error'' else m))"
proof -
  from assms(2) obtain props where p: "payload evt = JObj props" by (cases "payload evt") auto
  with assms(2) have "opt_chain (Some (payload evt)) (js ''message'') = Some (JStr m)" by simp
  with assms(1) show ?thesis by (simp add: dispatch_def Let_def)
qed

lemma dispatch_not_error:
  "event evt \<noteq> js ''error'' \<Longrightarrow> \<exists>prev'. dispatch eng aid evt prev = Inr prev'"
  by (simp add: dispatch_def Let_def)

lemma dispatch_blocks_no_error:
  "list_all not_error_event bs \<Longrightarrow> snd (dispatch_blocks eng aid bs prev) = None"
proof (induction bs arbitrary: prev)
  case Nil
  then show ?case by simp
next
  case (Cons b bs)
  show ?case
  proof (cases "parseSseBlock b")
    case None
    with Cons show ?thesis by simp
  next
    case (Some evt)
    with Cons.prems have "event evt \<noteq> js ''error''" by (simp add: not_error_event_def)
    from dispatch_not_error [OF this] obtain prev' where "dispatch eng aid evt prev = Inr prev'"
      by blast
    with Some Cons show ?thesis by simp
  qed
qed

lemma catch_after_dispatch:
  "dispatch eng aid evt prev = Inr prev' \<Longrightarrow> catch_handler aid e prev' = catch_handler aid e prev"
  by (auto simp: dispatch_def catch_handler_def setMessages_append_def
      split: if_splits sum.splits)

lemma catch_after_blocks:
  "dispatch_blocks eng aid bs prev = (p, x) \<Longrightarrow> catch_handler aid e p = catch_handler aid e prev"
proof (induction bs arbitrary: prev)
  case Nil
  then show ?case by simp
next
  case (Cons b bs)
  show ?case
  proof (cases "parseSseBlock b")
    case None
    with Cons show ?thesis by simp
  next
    case (Some evt)
    show ?thesis
    proof (cases "dispatch eng aid evt prev")
      case (Inl err)
      with Some Cons.prems show ?thesis by simp
    next
      case (Inr prev')
      with Some Cons.prems have "dispatch_blocks eng aid bs prev' = (p, x)" by simp
      from Cons.IH [OF this] catch_after_dispatch [OF Inr] show ?thesis by simp
    qed
  qed
qed

lemma frame_preserved_map:
  "(\<And>m. msg_id (f m) = msg_id m \<and> role (f m) = role m) \<Longrightarrow>
   frame_preserved aid prev (map (\<lambda>m. if msg_id m = Some aid then f m else m) prev)"
  by (simp add: frame_preserved_def list_all2_map2 list_all2_same)

lemma frame_preserved_refl: "frame_preserved aid prev prev"
  by (simp add: frame_preserved_def list_all2_same)

lemma frame_preserved_setMessages:
  "frame_preserved aid prev (setMessages_append aid added prev)"
proof (cases added)
  case (Inl e)
  then show ?thesis by (simp add: setMessages_append_def frame_preserved_refl)
next
  case (Inr s)
  have "frame_preserved aid prev
      (map (\<lambda>m. if msg_id m = Some aid then m\<lparr>content := content m @ s\<rparr> else m) prev)"
    by (rule frame_preserved_map) simp
  with Inr show ?thesis by (simp add: setMessages_append_def)
qed

lemma foldl_parse_line_no_fields:
  "list_all (\<lambda>line. \<not> (startsWith line (js ''event:'') \<or> startsWith line (js ''data:''))) ls \<Longrightarrow>
   foldl parse_line acc ls = acc"
  by (induction ls arbitrary: acc) (auto simp: parse_line_def Let_def)

lemma raw_payload_empty: "raw_payload [] = []"
  by (simp add: raw_payload_def block_fields_def parse_line_def startsWith_def nl_def js_def)

section \<open>The whole turn\<close>

lemma last_start_turn:
  "last (messages (start_turn aid st)) = \<lparr>msg_id = Some aid, role = Assistant, content = []\<rparr>"
  by (simp add: start_turn_def)

lemma messages_start_turn_nonempty: "messages (start_turn aid st) \<noteq> []"
  by (simp add: start_turn_def)

lemma last_catch_handler:
  "last (messages (start_turn aid st)) = m \<Longrightarrow>
   last (catch_handler aid e (messages (start_turn aid st))) =
     (if msg_id m = Some aid then m\<lparr>content := js ''Error: '' @ err_message e\<rparr> else m)"
  using messages_start_turn_nonempty [of aid st]
  by (simp add: catch_handler_def last_map)

text \<open>A turn on a successful response with a body: the outcome in terms of the dispatch
  of the complete frames.\<close>

lemma send_stream:
  assumes guard: "trim (text_st st) \<noteq> []" "\<not> loading st"
    and r: "ok r" "body r = Some b"
    and d: "dispatch_blocks eng aid (complete_frames b) (messages (start_turn aid st)) = (p, x)"
  shows "send eng aid (Response r) sem st =
     (case (case x of Some e \<Rightarrow> Some e
            | None \<Rightarrow> (case ending b of
                         Rejected e \<Rightarrow> Some e
                       | Done \<Rightarrow> (case fetch_memories eng sem of Inl e \<Rightarrow> Some e | Inr v \<Rightarrow> None))) of
        Some e \<Rightarrow>
          (start_turn aid st)\<lparr>messages := catch_handler aid e (messages (start_turn aid st)),
                               loading := False\<rparr>
      | None \<Rightarrow>
          (start_turn aid st)\<lparr>messages := p,
                               semantic := (case fetch_memories eng sem of Inr v \<Rightarrow> v | Inl e \<Rightarrow> semantic st),
                               loading := False\<rparr>)"
proof -
  note c = catch_after_blocks [OF d]
  have rl: "read_loop eng aid (new_TextDecoder, []) (chunks b) (ending b) (messages (start_turn aid st)) =
      finish (ending b) (p, x)"
    using d by (simp add: read_loop_start)
  show ?thesis
  proof (cases x)
    case (Some e)
    with guard r rl c show ?thesis
      by (simp add: send_def try_block_def finish_def)
  next
    case None
    show ?thesis
    proof (cases "ending b")
      case (Rejected e)
      with None guard r rl c show ?thesis
        by (simp add: send_def try_block_def finish_def)
    next
      case Done
      show ?thesis
      proof (cases "fetch_memories eng sem")
        case (Inl e)
        with Done None guard r rl c show ?thesis
          by (simp add: send_def try_block_def finish_def loadSemantic_def)
      next
        case (Inr v)
        with Done None guard r rl c show ?thesis
          by (simp add: send_def try_block_def finish_def loadSemantic_def start_turn_def)
      qed
    qed
  qed
qed

text \<open>The \<^verbatim>\<open>try\<close> block on a successful response with a body, when the dispatch of a
  frame throws: the state at the throw.\<close>

lemma try_block_throw:
  assumes "ok r" "body r = Some b"
    and "dispatch_blocks eng aid (complete_frames b) (messages st1) = (p, Some e)"
  shows "try_block eng aid (Response r) sem st1 = (st1\<lparr>messages := p\<rparr>, Some e)"
  using assms by (simp add: try_block_def read_loop_start finish_def)

section \<open>Properties of the streaming consumer\<close>

subsection \<open>Transport failure\<close>

text \<open>
  Claim C1 says that after a transport failure the assistant message still holds the text
  accumulated from the token events, with a failure annotation after it. The handler does
  not keep the text: on a stream that delivers the token \<^verbatim>\<open>He\<close> and then rejects a read
  with the message \<^verbatim>\<open>net\<close>, the content is \<^verbatim>\<open>Error: net\<close>, which does not start with
  \<^verbatim>\<open>He\<close>; the same stream ending normally gives \<^verbatim>\<open>He\<close>.
\<close>

theorem partial_output_discarded_counterexample:
  "content (last (messages (send example_engine (js ''a-1'') (example_stream [token_He] Done)
       example_memories example_state))) = js ''He''
   \<and> content (last (messages (send example_engine (js ''a-1'')
       (example_stream [token_He] (Rejected (TypeError (js ''net''))))
       example_memories example_state))) = js ''Error: net''
   \<and> \<not> startsWith (content (last (messages (send example_engine (js ''a-1'')
       (example_stream [token_He] (Rejected (TypeError (js ''net''))))
       example_memories example_state)))) (js ''He'')"
  by (simp add: eval)

text \<open>
  Claim C1, as the code has it: when a read of the body is rejected with error \<open>e\<close> and no
  \<^verbatim>\<open>error\<close> event came before, the turn ends in the state in which it started, with the
  content of the assistant message set to \<^verbatim>\<open>Error: \<close> followed by the message of \<open>e\<close>.
  The text accumulated before is replaced.
\<close>

theorem transport_failure_replaces_content:
  assumes "trim (text_st st) \<noteq> []" and "\<not> loading st"
    and "ok r" and "body r = Some b" and "ending b = Rejected e"
    and "list_all not_error_event (complete_frames b)"
  shows "send eng aid (Response r) sem st =
           (start_turn aid st)\<lparr>messages := catch_handler aid e (messages (start_turn aid st)),
                                loading := False\<rparr>
         \<and> last (messages (send eng aid (Response r) sem st)) =
             \<lparr>msg_id = Some aid, role = Assistant, content = js ''Error: '' @ err_message e\<rparr>"
proof -
  obtain p x where d: "dispatch_blocks eng aid (complete_frames b) (messages (start_turn aid st)) = (p, x)"
    by (cases "dispatch_blocks eng aid (complete_frames b) (messages (start_turn aid st))")
  from dispatch_blocks_no_error [OF assms(6), where eng = eng and aid = aid
      and prev = "messages (start_turn aid st)"] d
  have x: "x = None" by simp
  from send_stream [OF assms(1-4) d, of sem] x assms(5)
  have s: "send eng aid (Response r) sem st =
      (start_turn aid st)\<lparr>messages := catch_handler aid e (messages (start_turn aid st)),
                           loading := False\<rparr>"
    by simp
  then show ?thesis
    using last_catch_handler [OF last_start_turn, where e = e and aid = aid and st = st] by simp
qed

theorem transport_failure_replaces_content_witness:
  "last (messages (send example_engine (js ''a-1'')
       (example_stream [token_He] (Rejected (TypeError (js ''net''))))
       example_memories example_state)) =
   \<lparr>msg_id = Some (js ''a-1''), role = Assistant, content = js ''Error: net''\<rparr>"
proof -
  let ?b = "\<lparr>chunks = [token_He], ending = Rejected (TypeError (js ''net''))\<rparr>"
  let ?r = "\<lparr>status = 200, body = Some ?b\<rparr>"
  have h1: "trim (text_st example_state) \<noteq> []" by (simp add: eval)
  have h2: "\<not> loading example_state" by (simp add: eval)
  have h3: "ok ?r" by (simp add: ok_def)
  have h4: "body ?r = Some ?b" by simp
  have h5: "ending ?b = Rejected (TypeError (js ''net''))" by simp
  have h6: "list_all not_error_event (complete_frames ?b)" by (simp add: eval)
  from transport_failure_replaces_content [OF h1 h2 h3 h4 h5 h6]
  have "last (messages (send example_engine (js ''a-1'') (Response ?r) example_memories example_state)) =
      \<lparr>msg_id = Some (js ''a-1''), role = Assistant,
       content = js ''Error: '' @ err_message (TypeError (js ''net''))\<rparr>"
    by (rule conjunct2)
  then show ?thesis by (simp add: example_stream_def js_def)
qed

subsection \<open>Chunking invariance\<close>

text \<open>
  Claim C2: two streams with the same bytes, cut into chunks in any two ways (also inside a
  multi-byte character or inside a frame), end the turn in the same state; in particular
  any chunking gives what the single chunk gives. It holds for every byte stream, well
  formed or not, and for every status of the response.
\<close>

theorem chunking_invariance:
  assumes "concat cs = concat cs'"
  shows "send eng aid (Response \<lparr>status = s, body = Some \<lparr>chunks = cs, ending = fin\<rparr>\<rparr>) sem st =
         send eng aid (Response \<lparr>status = s, body = Some \<lparr>chunks = cs', ending = fin\<rparr>\<rparr>) sem st"
proof -
  have rl: "read_loop eng aid (new_TextDecoder, []) cs fin prev =
      read_loop eng aid (new_TextDecoder, []) cs' fin prev" for prev
    using read_loop_start [of eng aid "\<lparr>chunks = cs, ending = fin\<rparr>" prev]
      read_loop_start [of eng aid "\<lparr>chunks = cs', ending = fin\<rparr>" prev]
      complete_frames_concat [OF assms, of fin]
    by simp
  have js: "response_json eng \<lparr>status = s, body = Some \<lparr>chunks = cs, ending = fin\<rparr>\<rparr> =
      response_json eng \<lparr>status = s, body = Some \<lparr>chunks = cs', ending = fin\<rparr>\<rparr>"
    using assms by (cases fin) (simp_all add: response_json_def)
  have "try_block eng aid (Response \<lparr>status = s, body = Some \<lparr>chunks = cs, ending = fin\<rparr>\<rparr>) sem st1 =
      try_block eng aid (Response \<lparr>status = s, body = Some \<lparr>chunks = cs', ending = fin\<rparr>\<rparr>) sem st1" for st1
    using rl js by (simp add: try_block_def request_failure_def ok_def split: bool.splits)
  then show ?thesis by (simp add: send_def)
qed

theorem chunking_invariance_witness:
  \<open>send example_engine (js ''a-1'')
     (Response \<lparr>status = 200,
                body = Some \<lparr>chunks = [ascii ''event: token\<newline>data: {"text":"h'' @ [0xC3],
                                        [0xA9] @ ascii ''"}\<newline>'', ascii ''\<newline>''],
                              ending = Done\<rparr>\<rparr>)
     example_memories example_state =
   send example_engine (js ''a-1'')
     (Response \<lparr>status = 200,
                body = Some \<lparr>chunks = [ascii ''event: token\<newline>data: {"text":"h'' @ [0xC3, 0xA9]
                                          @ ascii ''"}\<newline>\<newline>''],
                              ending = Done\<rparr>\<rparr>)
     example_memories example_state
   \<and> content (last (messages (send example_engine (js ''a-1'')
     (Response \<lparr>status = 200,
                body = Some \<lparr>chunks = [ascii ''event: token\<newline>data: {"text":"h'' @ [0xC3],
                                        [0xA9] @ ascii ''"}\<newline>'', ascii ''\<newline>''],
                              ending = Done\<rparr>\<rparr>)
     example_memories example_state))) = [0x68, 0xE9]\<close>
proof -
  have h: \<open>concat [ascii ''event: token\<newline>data: {"text":"h'' @ [0xC3],
                    [0xA9] @ ascii ''"}\<newline>'', ascii ''\<newline>'']
         = concat [ascii ''event: token\<newline>data: {"text":"h'' @ [0xC3, 0xA9] @ ascii ''"}\<newline>\<newline>'']\<close>
    by (simp add: ascii_def)
  have c: \<open>content (last (messages (send example_engine (js ''a-1'')
     (Response \<lparr>status = 200,
                body = Some \<lparr>chunks = [ascii ''event: token\<newline>data: {"text":"h'' @ [0xC3],
                                        [0xA9] @ ascii ''"}\<newline>'', ascii ''\<newline>''],
                              ending = Done\<rparr>\<rparr>)
     example_memories example_state))) = [0x68, 0xE9]\<close>
    by (simp add: eval)
  from chunking_invariance [OF h] c show ?thesis by blast
qed

subsection \<open>Token order\<close>




subsection \<open>The error event\<close>

text \<open>
  Claim C4: at the first \<^verbatim>\<open>error\<close> event, with the string \<open>m\<close> as its \<^verbatim>\<open>message\<close>, the
  turn ends. The loop over the reads ends there, throwing an error with the message \<open>m\<close>
  (\<^verbatim>\<open>Stream error\<close> when \<open>m\<close> is empty), and the messages at the throw are those that the
  frames before the error frame have made: the frames after it are not dispatched, and
  neither they nor the end of the stream nor the refresh of the memories has any effect
  on the state in which the \<^verbatim>\<open>try\<close> block ends. The final state is the state at the
  start of the turn with the content of the assistant message set to \<^verbatim>\<open>Error: \<close>
  followed by that message, so the content ends with \<open>m\<close>.
\<close>

theorem error_event_is_terminal:
  assumes "trim (text_st st) \<noteq> []" and "\<not> loading st"
    and "ok r" and "body r = Some b"
    and "complete_frames b = before @ block # after"
    and "list_all not_error_event before"
    and "parseSseBlock block = Some evt" and "event evt = js ''error''"
    and "get_prop (payload evt) (js ''message'') = Some (JStr m)"
  shows "read_loop eng aid (new_TextDecoder, []) (chunks b) (ending b) (messages (start_turn aid st)) =
           (fst (dispatch_blocks eng aid before (messages (start_turn aid st))),
            Some (Error (if m = [] then js ''Stream error'' else m)))
         \<and> try_block eng aid (Response r) sem (start_turn aid st) =
             ((start_turn aid st)
                \<lparr>messages := fst (dispatch_blocks eng aid before (messages (start_turn aid st)))\<rparr>,
              Some (Error (if m = [] then js ''Stream error'' else m)))
         \<and> send eng aid (Response r) sem st =
             (start_turn aid st)
               \<lparr>messages := catch_handler aid (Error (if m = [] then js ''Stream error'' else m))
                              (messages (start_turn aid st)),
                loading := False\<rparr>
         \<and> last (messages (send eng aid (Response r) sem st)) =
             \<lparr>msg_id = Some aid, role = Assistant,
              content = js ''Error: '' @ (if m = [] then js ''Stream error'' else m)\<rparr>
         \<and> (\<exists>pre. content (last (messages (send eng aid (Response r) sem st))) = pre @ m)"
proof -
  let ?err = "Error (if m = [] then js ''Stream error'' else m)"
  let ?prev = "messages (start_turn aid st)"
  obtain p x where b: "dispatch_blocks eng aid before ?prev = (p, x)"
    by (cases "dispatch_blocks eng aid before ?prev")
  from dispatch_blocks_no_error [OF assms(6), where eng = eng and aid = aid and prev = ?prev] b
  have x: "x = None" by simp
  have "dispatch_blocks eng aid (block # after) p = (p, Some ?err)"
    using assms(7) dispatch_error [OF assms(8,9), where eng = eng and aid = aid and prev = p]
    by simp
  with b x have d: "dispatch_blocks eng aid (complete_frames b) ?prev = (p, Some ?err)"
    by (simp add: assms(5) dispatch_blocks_append)
  have rl: "read_loop eng aid (new_TextDecoder, []) (chunks b) (ending b) ?prev = (p, Some ?err)"
    using d by (simp add: read_loop_start finish_def)
  have t: "try_block eng aid (Response r) sem (start_turn aid st) =
      ((start_turn aid st)\<lparr>messages := p\<rparr>, Some ?err)"
    by (rule try_block_throw [OF assms(3,4) d])
  from send_stream [OF assms(1-4) d, of sem]
  have s: "send eng aid (Response r) sem st =
      (start_turn aid st)\<lparr>messages := catch_handler aid ?err ?prev, loading := False\<rparr>"
    by simp
  have l: "last (messages (send eng aid (Response r) sem st)) =
      \<lparr>msg_id = Some aid, role = Assistant,
       content = js ''Error: '' @ (if m = [] then js ''Stream error'' else m)\<rparr>"
    using s last_catch_handler [OF last_start_turn, where e = ?err and aid = aid and st = st]
    by simp
  have "\<exists>pre. js ''Error: '' @ (if m = [] then js ''Stream error'' else m) = pre @ m"
    by (cases "m = []") auto
  with rl t s l b show ?thesis by simp
qed

theorem error_event_is_terminal_witness:
  "messages (fst (try_block example_engine (js ''a-1'')
       (example_stream [token_He, error_boom, token_llo] Done)
       example_memories (start_turn (js ''a-1'') example_state))) =
     [\<lparr>msg_id = None, role = User, content = js ''hello''\<rparr>,
      \<lparr>msg_id = Some (js ''a-0''), role = Assistant, content = js ''Hi there''\<rparr>,
      \<lparr>msg_id = None, role = User, content = js ''hi''\<rparr>,
      \<lparr>msg_id = Some (js ''a-1''), role = Assistant, content = js ''He''\<rparr>]
   \<and> snd (try_block example_engine (js ''a-1'')
       (example_stream [token_He, error_boom, token_llo] Done)
       example_memories (start_turn (js ''a-1'') example_state)) = Some (Error (js ''boom''))
   \<and> last (messages (send example_engine (js ''a-1'')
       (example_stream [token_He, error_boom, token_llo] Done)
       example_memories example_state)) =
     \<lparr>msg_id = Some (js ''a-1''), role = Assistant, content = js ''Error: boom''\<rparr>"
proof -
  let ?b = "\<lparr>chunks = [token_He, error_boom, token_llo], ending = Done\<rparr>"
  let ?r = "\<lparr>status = 200, body = Some ?b\<rparr>"
  let ?evt = "\<lparr>event = js ''error'', payload = JObj [(js ''message'', JStr (js ''boom''))]\<rparr>"
  let ?st1 = "start_turn (js ''a-1'') example_state"
  have h1: "trim (text_st example_state) \<noteq> []" by (simp add: eval)
  have h2: "\<not> loading example_state" by (simp add: eval)
  have h3: "ok ?r" by (simp add: ok_def)
  have h4: "body ?r = Some ?b" by simp
  have h5: \<open>complete_frames ?b =
      [js ''event: token\<newline>data: {"text":"He"}'']
      @ js ''event: error\<newline>data: {"message":"boom"}''
      # [js ''event: token\<newline>data: {"text":"llo"}'']\<close>
    by (simp add: eval)
  have h6: \<open>list_all not_error_event [js ''event: token\<newline>data: {"text":"He"}'']\<close>
    by (simp add: eval)
  have h7: \<open>parseSseBlock (js ''event: error\<newline>data: {"message":"boom"}'') = Some ?evt\<close>
    by (simp add: eval)
  have h8: "event ?evt = js ''error''" by simp
  have h9: "get_prop (payload ?evt) (js ''message'') = Some (JStr (js ''boom''))" by simp
  have b: \<open>fst (dispatch_blocks example_engine (js ''a-1'')
        [js ''event: token\<newline>data: {"text":"He"}''] (messages ?st1)) =
     [\<lparr>msg_id = None, role = User, content = js ''hello''\<rparr>,
      \<lparr>msg_id = Some (js ''a-0''), role = Assistant, content = js ''Hi there''\<rparr>,
      \<lparr>msg_id = None, role = User, content = js ''hi''\<rparr>,
      \<lparr>msg_id = Some (js ''a-1''), role = Assistant, content = js ''He''\<rparr>]\<close>
    by (simp add: eval)
  have n: "js ''boom'' \<noteq> []" by (simp add: js_def)
  have c: "js ''Error: '' @ js ''boom'' = js ''Error: boom''" by (simp add: js_def)
  note t = error_event_is_terminal [OF h1 h2 h3 h4 h5 h6 h7 h8 h9, where aid = "js ''a-1''"
      and eng = example_engine and sem = example_memories]
  from t have \<open>try_block example_engine (js ''a-1'') (Response ?r) example_memories ?st1 =
      (?st1\<lparr>messages := fst (dispatch_blocks example_engine (js ''a-1'')
          [js ''event: token\<newline>data: {"text":"He"}''] (messages ?st1))\<rparr>,
       Some (Error (if js ''boom'' = [] then js ''Stream error'' else js ''boom'')))\<close>
    by blast
  then have 1: "try_block example_engine (js ''a-1'') (Response ?r) example_memories ?st1 =
      (?st1\<lparr>messages :=
         [\<lparr>msg_id = None, role = User, content = js ''hello''\<rparr>,
          \<lparr>msg_id = Some (js ''a-0''), role = Assistant, content = js ''Hi there''\<rparr>,
          \<lparr>msg_id = None, role = User, content = js ''hi''\<rparr>,
          \<lparr>msg_id = Some (js ''a-1''), role = Assistant, content = js ''He''\<rparr>]\<rparr>,
       Some (Error (js ''boom'')))"
    unfolding b using n by simp
  from t have "last (messages (send example_engine (js ''a-1'') (Response ?r) example_memories example_state)) =
      \<lparr>msg_id = Some (js ''a-1''), role = Assistant,
       content = js ''Error: '' @ (if js ''boom'' = [] then js ''Stream error'' else js ''boom'')\<rparr>"
    by blast
  then have 2: "last (messages (send example_engine (js ''a-1'') (Response ?r) example_memories example_state)) =
      \<lparr>msg_id = Some (js ''a-1''), role = Assistant, content = js ''Error: boom''\<rparr>"
    using n c by simp
  from 1 2 show ?thesis by (simp add: example_stream_def)
qed

subsection \<open>Failure before the stream\<close>

text \<open>
  Claim C5 says that the failure text is the \<^verbatim>\<open>detail\<close> or \<^verbatim>\<open>error\<close> of the body when
  one is present and else a generic message keyed by the status code. The generic message
  is not keyed by the status: with an empty object as the body, status 500 and status 404
  both give \<^verbatim>\<open>Error: Request failed\<close>. A field that is present is not always used: an
  empty \<^verbatim>\<open>detail\<close> gives the generic message. A field that is not a string is converted
  to one: the \<^verbatim>\<open>detail\<close> \<^verbatim>\<open>true\<close> gives \<^verbatim>\<open>Error: true\<close>. And the body need not be
  structured data: a body that is not JSON gives the message of the parse error, and the
  body \<^verbatim>\<open>null\<close> the message of the error of reading a property of \<^verbatim>\<open>null\<close>.
\<close>

theorem generic_failure_text_counterexample:
  \<open>content (last (messages (send example_engine (js ''a-1'') (example_failure 500 (ascii ''{}''))
       example_memories example_state))) = js ''Error: Request failed''
   \<and> content (last (messages (send example_engine (js ''a-1'') (example_failure 404 (ascii ''{}''))
       example_memories example_state))) = js ''Error: Request failed''
   \<and> content (last (messages (send example_engine (js ''a-1'')
       (example_failure 500 (ascii ''{"detail":""}''))
       example_memories example_state))) = js ''Error: Request failed''
   \<and> content (last (messages (send example_engine (js ''a-1'')
       (example_failure 500 (ascii ''{"detail":true}''))
       example_memories example_state))) = js ''Error: true''
   \<and> content (last (messages (send example_engine (js ''a-1'')
       (example_failure 500 (ascii ''Internal Server Error''))
       example_memories example_state))) = js ''Error: Unexpected token''
   \<and> content (last (messages (send example_engine (js ''a-1'') (example_failure 500 (ascii ''null''))
       example_memories example_state))) = js ''Error: Cannot read properties of null''\<close>
  by (simp add: eval)

text \<open>
  Claim C5, as the code has it: when the status is not successful or the body is missing,
  the \<^verbatim>\<open>try\<close> block ends in the state in which it started, with no event dispatched,
  and the content of the assistant message is \<^verbatim>\<open>Error: \<close> followed by the message of the
  error thrown. That error depends on the body only, not on the status. It is the error
  of reading or parsing the body when the body cannot be read or is not JSON (a missing
  body is parsed as the empty text); the error of reading a property of \<^verbatim>\<open>null\<close> when
  the body is \<^verbatim>\<open>null\<close>; and otherwise an error whose message is the conversion to a
  string of the failure value, or the error that this conversion throws. The failure
  value is the \<^verbatim>\<open>detail\<close> of the body when it is truthy, else its \<^verbatim>\<open>error\<close> when that is
  truthy, and else the fixed text \<^verbatim>\<open>Request failed\<close>. So a \<^verbatim>\<open>detail\<close> that is a
  non-empty string is the message.
\<close>

theorem request_failure_text:
  assumes "trim (text_st st) \<noteq> []" and "\<not> loading st"
    and "\<not> ok r \<or> body r = None"
  shows "try_block eng aid (Response r) sem (start_turn aid st) =
           (start_turn aid st, Some (request_failure eng r))
         \<and> last (messages (send eng aid (Response r) sem st)) =
             \<lparr>msg_id = Some aid, role = Assistant,
              content = js ''Error: '' @ err_message (request_failure eng r)\<rparr>
         \<and> (\<forall>r'. body r' = body r \<longrightarrow> request_failure eng r' = request_failure eng r)
         \<and> (response_json eng r = Inl e \<longrightarrow> request_failure eng r = e)
         \<and> (body r = None \<longrightarrow> request_failure eng r = SyntaxError (syntax_error_message eng []))
         \<and> (response_json eng r = Inr JNull \<longrightarrow>
              request_failure eng r = TypeError (null_property_message eng (js ''detail'')))
         \<and> (response_json eng r = Inr data \<and> data \<noteq> JNull \<longrightarrow>
              request_failure eng r =
                (case to_string eng (failure_value data) of Inl e' \<Rightarrow> e' | Inr s \<Rightarrow> Error s))
         \<and> (get_prop data (js ''detail'') = Some v \<and> truthy v \<longrightarrow> failure_value data = v)
         \<and> ((\<forall>v'. get_prop data (js ''detail'') = Some v' \<longrightarrow> \<not> truthy v')
              \<and> get_prop data (js ''error'') = Some w \<and> truthy w \<longrightarrow> failure_value data = w)
         \<and> ((\<forall>v'. get_prop data (js ''detail'') = Some v' \<longrightarrow> \<not> truthy v')
              \<and> (\<forall>w'. get_prop data (js ''error'') = Some w' \<longrightarrow> \<not> truthy w')
              \<longrightarrow> failure_value data = JStr (js ''Request failed''))
         \<and> (response_json eng r = Inr data \<and> get_prop data (js ''detail'') = Some (JStr d) \<and> d \<noteq> []
              \<longrightarrow> request_failure eng r = Error d)"
proof -
  have t: "try_block eng aid (Response r) sem (start_turn aid st) =
      (start_turn aid st, Some (request_failure eng r))"
    using assms(3) by (auto simp: try_block_def split: bool.splits option.splits)
  then have "send eng aid (Response r) sem st =
      (start_turn aid st)\<lparr>messages := catch_handler aid (request_failure eng r)
        (messages (start_turn aid st)), loading := False\<rparr>"
    using assms(1,2) by (simp add: send_def)
  then have l: "last (messages (send eng aid (Response r) sem st)) =
      \<lparr>msg_id = Some aid, role = Assistant,
       content = js ''Error: '' @ err_message (request_failure eng r)\<rparr>"
    using last_catch_handler [OF last_start_turn, where e = "request_failure eng r"
        and aid = aid and st = st]
    by simp
  have s: "\<forall>r'. body r' = body r \<longrightarrow> request_failure eng r' = request_failure eng r"
    by (simp add: request_failure_def response_json_def)
  have i: "response_json eng r = Inl e \<longrightarrow> request_failure eng r = e"
    by (simp add: request_failure_def)
  have "JSON_parse [] = None" by (simp add: eval)
  then have n: "body r = None \<longrightarrow> request_failure eng r = SyntaxError (syntax_error_message eng [])"
    by (simp add: request_failure_def response_json_def)
  have u: "response_json eng r = Inr JNull \<longrightarrow>
      request_failure eng r = TypeError (null_property_message eng (js ''detail''))"
    by (simp add: request_failure_def)
  have c: "response_json eng r = Inr data \<and> data \<noteq> JNull \<longrightarrow>
      request_failure eng r =
        (case to_string eng (failure_value data) of Inl e' \<Rightarrow> e' | Inr s \<Rightarrow> Error s)"
    by (simp add: request_failure_def)
  have f1: "get_prop data (js ''detail'') = Some v \<and> truthy v \<longrightarrow> failure_value data = v"
    by (simp add: failure_value_def)
  have f2: "(\<forall>v'. get_prop data (js ''detail'') = Some v' \<longrightarrow> \<not> truthy v')
      \<and> get_prop data (js ''error'') = Some w \<and> truthy w \<longrightarrow> failure_value data = w"
    by (cases "get_prop data (js ''detail'')") (simp_all add: failure_value_def)
  have f3: "(\<forall>v'. get_prop data (js ''detail'') = Some v' \<longrightarrow> \<not> truthy v')
      \<and> (\<forall>w'. get_prop data (js ''error'') = Some w' \<longrightarrow> \<not> truthy w')
      \<longrightarrow> failure_value data = JStr (js ''Request failed'')"
    by (cases "get_prop data (js ''detail'')"; cases "get_prop data (js ''error'')")
      (simp_all add: failure_value_def)
  have g: "response_json eng r = Inr data \<and> get_prop data (js ''detail'') = Some (JStr d) \<and> d \<noteq> []
      \<longrightarrow> request_failure eng r = Error d"
    by (auto simp: request_failure_def failure_value_def)
  show ?thesis
    by (intro conjI) (rule t l s i n u c f1 f2 f3 g)+
qed

theorem request_failure_text_witness:
  \<open>last (messages (send example_engine (js ''a-1'') (example_failure 500 (ascii ''{"detail":"bad"}''))
       example_memories example_state)) =
   \<lparr>msg_id = Some (js ''a-1''), role = Assistant, content = js ''Error: bad''\<rparr>\<close>
proof -
  let ?r = \<open>\<lparr>status = 500, body = Some \<lparr>chunks = [ascii ''{"detail":"bad"}''], ending = Done\<rparr>\<rparr>\<close>
  have h1: "trim (text_st example_state) \<noteq> []" by (simp add: eval)
  have h2: "\<not> loading example_state" by (simp add: eval)
  have h3: "\<not> ok ?r \<or> body ?r = None" by (simp add: ok_def)
  have f: "request_failure example_engine ?r = Error (js ''bad'')" by (simp add: eval)
  from request_failure_text [OF h1 h2 h3, where eng = example_engine and aid = "js ''a-1''"
      and sem = example_memories]
  have "last (messages (send example_engine (js ''a-1'') (Response ?r) example_memories example_state)) =
      \<lparr>msg_id = Some (js ''a-1''), role = Assistant,
       content = js ''Error: '' @ err_message (request_failure example_engine ?r)\<rparr>"
    by blast
  moreover have "js ''Error: '' @ js ''bad'' = js ''Error: bad''" by (simp add: js_def)
  ultimately show ?thesis by (simp add: example_failure_def f)
qed

subsection \<open>The frame parser\<close>

text \<open>
  Claim C6: for a block whose joined data lines are not empty, the parser returns an event
  whose payload is the parsed JSON value, or the object with the raw text as its only
  property \<^verbatim>\<open>text\<close> when the text is not JSON. The parser has no failing result. The
  block \<^verbatim>\<open>data: not-json\<close> gives the payload text \<^verbatim>\<open>not-json\<close>.
\<close>

theorem parse_falls_back_to_raw_text:
  assumes "raw_payload block \<noteq> []"
  shows "parseSseBlock block =
     Some \<lparr>event = fst (block_fields block),
           payload = (case JSON_parse (raw_payload block) of
                        Some v \<Rightarrow> v
                      | None \<Rightarrow> JObj [(js ''text'', JStr (raw_payload block))])\<rparr>"
proof -
  from assms raw_payload_empty have "block \<noteq> []" by auto
  with assms show ?thesis by (simp add: parseSseBlock_def Let_def)
qed

theorem parse_falls_back_to_raw_text_witness:
  "parseSseBlock (js ''data: not-json'') =
   Some \<lparr>event = js ''message'', payload = JObj [(js ''text'', JStr (js ''not-json''))]\<rparr>"
proof -
  have h: "raw_payload (js ''data: not-json'') \<noteq> []" by (simp add: eval)
  have e: "fst (block_fields (js ''data: not-json'')) = js ''message''" by (simp add: eval)
  have r: "raw_payload (js ''data: not-json'') = js ''not-json''" by (simp add: eval)
  have j: "JSON_parse (js ''not-json'') = None" by (simp add: eval)
  from parse_falls_back_to_raw_text [OF h] show ?thesis by (simp add: e r j)
qed

subsection \<open>The frame buffer\<close>

text \<open>
  Claim C7, for a buffer that holds no delimiter, as the buffer kept by the loop always
  does. One turn of the loop dispatches all the segments of the buffered text but the
  last, in order, and keeps the last; the segments joined by the delimiter are the
  buffered text, and the segment kept holds no delimiter. The loop, at a chunk, makes this
  turn, ends if a frame has thrown, and else goes on with the rest of the chunks, the
  segment kept as its buffer. So the loop as a whole dispatches, in order, the segments
  of the buffer followed by the text of the stream, all but the last, which is never
  dispatched. When the stream completes, a buffer that holds no delimiter is dropped:
  nothing is dispatched and no error is raised.
\<close>

theorem buffer_keeps_last_segment:
  assumes "js_split delimiter buffer = [buffer]"
  shows "(let segs = js_split delimiter (buffer @ snd (decode td val (\<not> done)))
          in consume eng aid (td, buffer) val done prev =
               (case dispatch_blocks eng aid (butlast segs) prev of
                  (prev', err) \<Rightarrow> ((fst (decode td val (\<not> done)), last segs), prev', err))
             \<and> js_join delimiter (butlast segs @ [last segs]) =
                 buffer @ snd (decode td val (\<not> done))
             \<and> js_split delimiter (last segs) = [last segs])
         \<and> (let segs = js_split delimiter (buffer @ snd (decode td chunk True))
            in read_loop eng aid (td, buffer) (chunk # rest) fin prev =
                 (case dispatch_blocks eng aid (butlast segs) prev of
                    (prev', Some err) \<Rightarrow> (prev', Some err)
                  | (prev', None) \<Rightarrow>
                      read_loop eng aid (fst (decode td chunk True), last segs) rest fin prev'))
         \<and> read_loop eng aid (td, buffer) cs fin prev =
             finish fin (dispatch_blocks eng aid
               (butlast (js_split delimiter (buffer @ stream_text td cs fin))) prev)
         \<and> read_loop eng aid (td, buffer) [] Done prev = (prev, None)"
proof -
  have step: "consume eng aid (td, buffer) v d prev =
      (case dispatch_blocks eng aid
              (butlast (js_split delimiter (buffer @ snd (decode td v (\<not> d))))) prev of
         (prev', err) \<Rightarrow>
           ((fst (decode td v (\<not> d)),
             last (js_split delimiter (buffer @ snd (decode td v (\<not> d))))), prev', err))" for v d
  proof -
    obtain td' t where dec: "decode td v (\<not> d) = (td', t)"
      by (cases "decode td v (\<not> d)")
    have "js_split delimiter (buffer @ t) \<noteq> []"
      by (simp add: js_split_nonempty delimiter_nonempty)
    with dec show ?thesis by (simp add: consume_def Let_def)
  qed
  define segs where "segs = js_split delimiter (buffer @ snd (decode td val (\<not> done)))"
  have ne: "segs \<noteq> []" by (simp add: segs_def js_split_nonempty delimiter_nonempty)
  have 1: "consume eng aid (td, buffer) val done prev =
      (case dispatch_blocks eng aid (butlast segs) prev of
         (prev', err) \<Rightarrow> ((fst (decode td val (\<not> done)), last segs), prev', err))"
    unfolding segs_def by (rule step)
  have 2: "js_join delimiter (butlast segs @ [last segs]) = buffer @ snd (decode td val (\<not> done))"
    using ne js_join_split [OF delimiter_nonempty, of "buffer @ snd (decode td val (\<not> done))"]
    by (simp add: segs_def)
  have 3: "js_split delimiter (last segs) = [last segs]"
    unfolding segs_def by (rule js_split_last [OF delimiter_nonempty])
  have 4: "read_loop eng aid (td, buffer) (chunk # rest) fin prev =
      (case dispatch_blocks eng aid
              (butlast (js_split delimiter (buffer @ snd (decode td chunk True)))) prev of
         (prev', Some err) \<Rightarrow> (prev', Some err)
       | (prev', None) \<Rightarrow>
           read_loop eng aid
             (fst (decode td chunk True),
              last (js_split delimiter (buffer @ snd (decode td chunk True)))) rest fin prev')"
    using step [of chunk False]
    by (simp split: prod.splits option.splits)
  have 5: "read_loop eng aid (td, buffer) cs fin prev =
      finish fin (dispatch_blocks eng aid
        (butlast (js_split delimiter (buffer @ stream_text td cs fin))) prev)"
    by (rule read_loop_frames [OF assms])
  have 6: "read_loop eng aid (td, buffer) [] Done prev = (prev, None)"
    by (rule read_loop_done_drops_buffer [OF assms])
  from 1 2 3 have a: "(let segs = js_split delimiter (buffer @ snd (decode td val (\<not> done)))
          in consume eng aid (td, buffer) val done prev =
               (case dispatch_blocks eng aid (butlast segs) prev of
                  (prev', err) \<Rightarrow> ((fst (decode td val (\<not> done)), last segs), prev', err))
             \<and> js_join delimiter (butlast segs @ [last segs]) =
                 buffer @ snd (decode td val (\<not> done))
             \<and> js_split delimiter (last segs) = [last segs])"
    by (simp add: Let_def segs_def)
  from 4 have b: "(let segs = js_split delimiter (buffer @ snd (decode td chunk True))
            in read_loop eng aid (td, buffer) (chunk # rest) fin prev =
                 (case dispatch_blocks eng aid (butlast segs) prev of
                    (prev', Some err) \<Rightarrow> (prev', Some err)
                  | (prev', None) \<Rightarrow>
                      read_loop eng aid (fst (decode td chunk True), last segs) rest fin prev'))"
    by (simp add: Let_def)
  show ?thesis by (intro conjI) (rule a b 5 6)+
qed

theorem buffer_keeps_last_segment_witness:
  \<open>consume example_engine (js ''a-1'') (new_TextDecoder, js ''event: to'')
      (ascii ''ken\<newline>data: {"text":"x"}\<newline>\<newline>event: tok'') False
      [\<lparr>msg_id = Some (js ''a-1''), role = Assistant, content = []\<rparr>] =
    ((\<lparr>decoder = new_utf8_decoder, bom_seen = True, do_not_flush = True\<rparr>, js ''event: tok''),
     [\<lparr>msg_id = Some (js ''a-1''), role = Assistant, content = js ''x''\<rparr>], None)
   \<and> read_loop example_engine (js ''a-1'') (new_TextDecoder, js ''event: to'')
        [ascii ''ken\<newline>data: {"text":"x"}\<newline>'',
         ascii ''\<newline>event: token\<newline>data: {"text":"y"}\<newline>\<newline>event: tok'',
         ascii ''en\<newline>data: {"text":"z"}\<newline>''] Done
        [\<lparr>msg_id = Some (js ''a-1''), role = Assistant, content = []\<rparr>] =
      ([\<lparr>msg_id = Some (js ''a-1''), role = Assistant, content = js ''xy''\<rparr>], None)
   \<and> read_loop example_engine (js ''a-1'')
        (\<lparr>decoder = new_utf8_decoder, bom_seen = True, do_not_flush = True\<rparr>, js ''event: tok'') [] Done
        [\<lparr>msg_id = Some (js ''a-1''), role = Assistant, content = js ''x''\<rparr>] =
      ([\<lparr>msg_id = Some (js ''a-1''), role = Assistant, content = js ''x''\<rparr>], None)\<close>
proof -
  let ?cs = \<open>[ascii ''ken\<newline>data: {"text":"x"}\<newline>'',
         ascii ''\<newline>event: token\<newline>data: {"text":"y"}\<newline>\<newline>event: tok'',
         ascii ''en\<newline>data: {"text":"z"}\<newline>'']\<close>
  let ?prev = "[\<lparr>msg_id = Some (js ''a-1''), role = Assistant, content = []\<rparr>]"
  have h0: "js_split delimiter (js ''event: to'') = [js ''event: to'']" by (simp add: eval)
  have h: "js_split delimiter (js ''event: tok'') = [js ''event: tok'']" by (simp add: eval)
  have c: \<open>consume example_engine (js ''a-1'') (new_TextDecoder, js ''event: to'')
      (ascii ''ken\<newline>data: {"text":"x"}\<newline>\<newline>event: tok'') False ?prev =
    ((\<lparr>decoder = new_utf8_decoder, bom_seen = True, do_not_flush = True\<rparr>, js ''event: tok''),
     [\<lparr>msg_id = Some (js ''a-1''), role = Assistant, content = js ''x''\<rparr>], None)\<close>
    by (simp add: eval)
  have f: "finish Done (dispatch_blocks example_engine (js ''a-1'')
        (butlast (js_split delimiter (js ''event: to'' @ stream_text new_TextDecoder ?cs Done))) ?prev) =
      ([\<lparr>msg_id = Some (js ''a-1''), role = Assistant, content = js ''xy''\<rparr>], None)"
    by (simp add: eval)
  from buffer_keeps_last_segment [OF h0, where eng = example_engine and aid = "js ''a-1''"
      and td = new_TextDecoder and cs = ?cs and fin = Done and prev = ?prev]
  have "read_loop example_engine (js ''a-1'') (new_TextDecoder, js ''event: to'') ?cs Done ?prev =
      finish Done (dispatch_blocks example_engine (js ''a-1'')
        (butlast (js_split delimiter (js ''event: to'' @ stream_text new_TextDecoder ?cs Done))) ?prev)"
    by blast
  with f have l: "read_loop example_engine (js ''a-1'') (new_TextDecoder, js ''event: to'') ?cs Done ?prev =
      ([\<lparr>msg_id = Some (js ''a-1''), role = Assistant, content = js ''xy''\<rparr>], None)"
    by simp
  from buffer_keeps_last_segment [OF h] have d: "read_loop example_engine (js ''a-1'')
        (\<lparr>decoder = new_utf8_decoder, bom_seen = True, do_not_flush = True\<rparr>, js ''event: tok'') [] Done
        [\<lparr>msg_id = Some (js ''a-1''), role = Assistant, content = js ''x''\<rparr>] =
      ([\<lparr>msg_id = Some (js ''a-1''), role = Assistant, content = js ''x''\<rparr>], None)"
    by blast
  from c l d show ?thesis by (intro conjI)
qed

subsection \<open>Frames without fields\<close>

text \<open>
  Claim C8 says that the parser returns \<^verbatim>\<open>null\<close> for every frame without an event-name
  line and without a data line. It does so for the empty frame only: the comment frame
  \<^verbatim>\<open>: ping\<close> has no such line and gives the event \<^verbatim>\<open>message\<close> with an empty payload.
\<close>

theorem frame_without_fields_counterexample:
  "no_field_lines (js '': ping'')
   \<and> parseSseBlock (js '': ping'') = Some \<lparr>event = js ''message'', payload = JObj []\<rparr>
   \<and> parseSseBlock (js '': ping'') \<noteq> None"
  by (simp add: eval)

text \<open>
  Claim C8, as the code has it: a frame without an event-name line and without a data
  line gives \<^verbatim>\<open>null\<close> when it is empty and the event \<^verbatim>\<open>message\<close> with the empty object
  as payload otherwise; in both cases the dispatch of the frame leaves the messages as
  they are and throws nothing.
\<close>

theorem frame_without_fields_is_ignored:
  assumes "no_field_lines block"
  shows "parseSseBlock block =
           (if block = [] then None else Some \<lparr>event = js ''message'', payload = JObj []\<rparr>)
         \<and> dispatch_blocks eng aid [block] prev = (prev, None)"
proof -
  from assms have "block_fields block = (js ''message'', [])"
    by (simp add: block_fields_def no_field_lines_def foldl_parse_line_no_fields)
  then have p: "parseSseBlock block =
      (if block = [] then None else Some \<lparr>event = js ''message'', payload = JObj []\<rparr>)"
    by (simp add: parseSseBlock_def raw_payload_def Let_def)
  then show ?thesis by (simp add: dispatch_def)
qed

theorem frame_without_fields_is_ignored_witness:
  "parseSseBlock (js ''retry: 1000'') = Some \<lparr>event = js ''message'', payload = JObj []\<rparr>
   \<and> dispatch_blocks example_engine (js ''a-1'') [js ''retry: 1000'']
        [\<lparr>msg_id = Some (js ''a-1''), role = Assistant, content = js ''x''\<rparr>] =
      ([\<lparr>msg_id = Some (js ''a-1''), role = Assistant, content = js ''x''\<rparr>], None)"
proof -
  have h: "no_field_lines (js ''retry: 1000'')" by (simp add: eval)
  have n: "js ''retry: 1000'' \<noteq> []" by (simp add: js_def)
  note t = frame_without_fields_is_ignored [OF h, where eng = example_engine and aid = "js ''a-1''"
      and prev = "[\<lparr>msg_id = Some (js ''a-1''), role = Assistant, content = js ''x''\<rparr>]"]
  from t n have p: "parseSseBlock (js ''retry: 1000'') =
      Some \<lparr>event = js ''message'', payload = JObj []\<rparr>" by simp
  from t have d: "dispatch_blocks example_engine (js ''a-1'') [js ''retry: 1000'']
        [\<lparr>msg_id = Some (js ''a-1''), role = Assistant, content = js ''x''\<rparr>] =
      ([\<lparr>msg_id = Some (js ''a-1''), role = Assistant, content = js ''x''\<rparr>], None)"
    by (rule conjunct2)
  show ?thesis by (rule conjI [OF p d])
qed

subsection \<open>Frame condition\<close>

text \<open>
  Claim C9: the update of the message list for one event, and the update of the
  \<^verbatim>\<open>catch\<close> handler when the event throws, keep the length of the list, the order, the
  identifiers and the roles, and leave every message whose identifier is not the
  assistant identifier of the turn as it is.
\<close>

theorem update_touches_only_the_assistant_message:
  "(case dispatch eng aid evt prev of
      Inr prev' \<Rightarrow> frame_preserved aid prev prev'
    | Inl err \<Rightarrow> frame_preserved aid prev (catch_handler aid err prev))"
proof (cases "dispatch eng aid evt prev")
  case (Inl err)
  have "frame_preserved aid prev (catch_handler aid err prev)"
    unfolding catch_handler_def by (rule frame_preserved_map) simp
  with Inl show ?thesis by simp
next
  case (Inr prev')
  then have "prev' = prev \<or> (\<exists>added. prev' = setMessages_append aid added prev)"
    by (auto simp: dispatch_def split: if_splits sum.splits)
  then have "frame_preserved aid prev prev'"
    using frame_preserved_setMessages [of aid prev] frame_preserved_refl [of aid prev] by auto
  with Inr show ?thesis by simp
qed

theorem update_touches_only_the_assistant_message_witness:
  "frame_preserved (js ''a-1'')
     [\<lparr>msg_id = None, role = User, content = js ''hi''\<rparr>,
      \<lparr>msg_id = Some (js ''a-0''), role = Assistant, content = js ''old''\<rparr>,
      \<lparr>msg_id = Some (js ''a-1''), role = Assistant, content = js ''He''\<rparr>]
     [\<lparr>msg_id = None, role = User, content = js ''hi''\<rparr>,
      \<lparr>msg_id = Some (js ''a-0''), role = Assistant, content = js ''old''\<rparr>,
      \<lparr>msg_id = Some (js ''a-1''), role = Assistant, content = js ''Hello''\<rparr>]"
proof -
  have d: "dispatch example_engine (js ''a-1'') \<lparr>event = js ''token'', payload = JObj [(js ''text'', JStr (js ''llo''))]\<rparr>
     [\<lparr>msg_id = None, role = User, content = js ''hi''\<rparr>,
      \<lparr>msg_id = Some (js ''a-0''), role = Assistant, content = js ''old''\<rparr>,
      \<lparr>msg_id = Some (js ''a-1''), role = Assistant, content = js ''He''\<rparr>] =
     Inr [\<lparr>msg_id = None, role = User, content = js ''hi''\<rparr>,
      \<lparr>msg_id = Some (js ''a-0''), role = Assistant, content = js ''old''\<rparr>,
      \<lparr>msg_id = Some (js ''a-1''), role = Assistant, content = js ''Hello''\<rparr>]"
    by (simp add: eval)
  from update_touches_only_the_assistant_message
    [where eng = example_engine and aid = "js ''a-1''"
       and evt = "\<lparr>event = js ''token'', payload = JObj [(js ''text'', JStr (js ''llo''))]\<rparr>"
       and prev = "[\<lparr>msg_id = None, role = User, content = js ''hi''\<rparr>,
      \<lparr>msg_id = Some (js ''a-0''), role = Assistant, content = js ''old''\<rparr>,
      \<lparr>msg_id = Some (js ''a-1''), role = Assistant, content = js ''He''\<rparr>]"]
  show ?thesis unfolding d by simp
qed

subsection \<open>Tokens without text\<close>

text \<open>
  Claim C10: a \<^verbatim>\<open>token\<close> event whose payload is \<^verbatim>\<open>null\<close>, is not an object, or is an
  object without a \<^verbatim>\<open>text\<close> property throws nothing and leaves every message as it is.
\<close>

theorem token_without_text_changes_nothing:
  assumes "lacks_text p"
  shows "dispatch eng aid \<lparr>event = js ''token'', payload = p\<rparr> prev = Inr prev"
proof -
  from assms have "opt_chain (Some p) (js ''text'') = None" by (cases p) simp_all
  then have "token_text eng p = Inr []" by (simp add: token_text_def)
  then show ?thesis by (simp add: dispatch_def setMessages_append_def map_idI)
qed

theorem token_without_text_changes_nothing_witness:
  "dispatch example_engine (js ''a-1'') \<lparr>event = js ''token'', payload = JNum (to_number (js ''5''))\<rparr>
     [\<lparr>msg_id = Some (js ''a-1''), role = Assistant, content = js ''He''\<rparr>] =
   Inr [\<lparr>msg_id = Some (js ''a-1''), role = Assistant, content = js ''He''\<rparr>]"
proof -
  have h: "lacks_text (JNum (to_number (js ''5'')))" by simp
  from token_without_text_changes_nothing [OF h] show ?thesis .
qed

end
